theory Spec2Isabelle
  imports Complex_Main "HOL-Library.Sublist"
begin

section \<open>Array values of the robust PCA bootstrap\<close>

text \<open>
  The program \<^verbatim>\<open>robustpca.py\<close> computes on numpy arrays of 64-bit floats. An entry
  is modelled as a real number, one of the two infinities, or the undefined value
  \<^verbatim>\<open>nan\<close>. Rounding, overflow and the sign of zero are not modelled: arithmetic on
  finite entries is exact. Division follows numpy (a warning, never an exception):
  a finite non-zero value divided by zero is an infinity, and \<^verbatim>\<open>0/0\<close> is \<^verbatim>\<open>nan\<close>.
  A two-dimensional array is the list of its rows.
\<close>

datatype npfloat = Fin real | PInf | NInf | NaN

type_synonym vector = "npfloat list"
type_synonym matrix = "npfloat list list"

datatype error =
    TypeError string
  | ValueError
  | IndexError
  | KeyError
  | ZeroDivisionError
  | LinAlgError

fun fneg :: "npfloat \<Rightarrow> npfloat" where
  "fneg (Fin a) = Fin (- a)"
| "fneg PInf = NInf"
| "fneg NInf = PInf"
| "fneg NaN = NaN"

fun fadd :: "npfloat \<Rightarrow> npfloat \<Rightarrow> npfloat" where
  "fadd NaN y = NaN"
| "fadd x NaN = NaN"
| "fadd PInf NInf = NaN"
| "fadd NInf PInf = NaN"
| "fadd PInf y = PInf"
| "fadd x PInf = PInf"
| "fadd NInf y = NInf"
| "fadd x NInf = NInf"
| "fadd (Fin a) (Fin b) = Fin (a + b)"

definition fsub :: "npfloat \<Rightarrow> npfloat \<Rightarrow> npfloat" where
  "fsub x y = fadd x (fneg y)"

fun fmul :: "npfloat \<Rightarrow> npfloat \<Rightarrow> npfloat" where
  "fmul NaN y = NaN"
| "fmul x NaN = NaN"
| "fmul (Fin a) (Fin b) = Fin (a * b)"
| "fmul (Fin a) PInf = (if a = 0 then NaN else if 0 < a then PInf else NInf)"
| "fmul (Fin a) NInf = (if a = 0 then NaN else if 0 < a then NInf else PInf)"
| "fmul PInf (Fin b) = (if b = 0 then NaN else if 0 < b then PInf else NInf)"
| "fmul NInf (Fin b) = (if b = 0 then NaN else if 0 < b then NInf else PInf)"
| "fmul PInf PInf = PInf"
| "fmul NInf NInf = PInf"
| "fmul PInf NInf = NInf"
| "fmul NInf PInf = NInf"

fun fdiv :: "npfloat \<Rightarrow> npfloat \<Rightarrow> npfloat" where
  "fdiv NaN y = NaN"
| "fdiv x NaN = NaN"
| "fdiv (Fin a) (Fin b) =
     (if b \<noteq> 0 then Fin (a / b)
      else if a = 0 then NaN else if 0 < a then PInf else NInf)"
| "fdiv (Fin a) PInf = Fin 0"
| "fdiv (Fin a) NInf = Fin 0"
| "fdiv PInf (Fin b) = (if 0 \<le> b then PInf else NInf)"
| "fdiv NInf (Fin b) = (if 0 \<le> b then NInf else PInf)"
| "fdiv PInf PInf = NaN"
| "fdiv PInf NInf = NaN"
| "fdiv NInf PInf = NaN"
| "fdiv NInf NInf = NaN"

text \<open>\<^verbatim>\<open>x**2\<close> on a float array.\<close>

definition fsq :: "npfloat \<Rightarrow> npfloat" where
  "fsq x = fmul x x"

text \<open>The plain sum and mean of a one-dimensional array (\<^verbatim>\<open>np.sum\<close>, \<^verbatim>\<open>np.mean\<close>).\<close>

definition fsum :: "vector \<Rightarrow> npfloat" where
  "fsum xs = foldr fadd xs (Fin 0)"

definition fmean :: "vector \<Rightarrow> npfloat" where
  "fmean xs = fdiv (fsum xs) (Fin (real (length xs)))"

text \<open>
  \<^verbatim>\<open>np.nansum\<close> treats \<^verbatim>\<open>nan\<close> entries as absent; \<^verbatim>\<open>np.nanmean\<close> divides the
  sum of the entries that are not \<^verbatim>\<open>nan\<close> by their number, and is \<^verbatim>\<open>nan\<close>
  (with a warning) when there is none.
\<close>

definition not_nan :: "npfloat \<Rightarrow> bool" where
  "not_nan x = (x \<noteq> NaN)"

definition nansum :: "vector \<Rightarrow> npfloat" where
  "nansum xs = fsum (filter not_nan xs)"

definition nanmean :: "vector \<Rightarrow> npfloat" where
  "nanmean xs =
     (let ys = filter not_nan xs
      in if ys = [] then NaN else fdiv (fsum ys) (Fin (real (length ys))))"

section \<open>Residual engine\<close>

text \<open>
  \<^verbatim>\<open>residuals[error_map==0] = np.nan\<close> indexes with a boolean array, which numpy
  accepts only when the shape of the (sliced) mask is the shape of the residuals;
  otherwise it raises \<^verbatim>\<open>IndexError\<close>. The assignment writes into the caller's
  array, so the model returns the array after the call beside the returned sums.
\<close>

definition same_shape :: "matrix \<Rightarrow> matrix \<Rightarrow> bool" where
  "same_shape a b = list_all2 (\<lambda>r s. length r = length s) a b"

definition mask_entry :: "npfloat \<Rightarrow> npfloat \<Rightarrow> npfloat" where
  "mask_entry x e = (if e = Fin 0 then NaN else x)"

definition sum_sq_rows :: "matrix \<Rightarrow> vector" where
  "sum_sq_rows residuals = map (\<lambda>row. nansum (map fsq row)) residuals"

definition mag_residual_sq :: "matrix \<Rightarrow> matrix option \<Rightarrow> error + (matrix \<times> vector)" where
  "mag_residual_sq residuals error_map =
     (case error_map of
        None \<Rightarrow> Inr (residuals, sum_sq_rows residuals)
      | Some em \<Rightarrow>
          (let em' = take (length residuals) em
           in if same_shape residuals em'
              then (let residuals' = map2 (map2 mask_entry) residuals em'
                    in Inr (residuals', sum_sq_rows residuals'))
              else Inl IndexError))"

text \<open>The entries of a row at the features that the mask row does not flag with a zero.\<close>

definition kept_entries :: "vector \<Rightarrow> vector \<Rightarrow> vector" where
  "kept_entries row mask_row = map fst (filter (\<lambda>(x, e). e \<noteq> Fin 0) (zip row mask_row))"

section \<open>Centring and the initial eigen-basis\<close>

text \<open>
  \<^verbatim>\<open>np.nanmean(data, axis=0)\<close> is the mean of every column, \<^verbatim>\<open>nan\<close> entries
  ignored; the subtraction broadcasts the mean vector along the rows. The argument
  \<^verbatim>\<open>errors\<close> is accepted and not used.
\<close>

definition mean_subtracted_data :: "matrix \<Rightarrow> matrix option \<Rightarrow> matrix \<times> vector" where
  "mean_subtracted_data data errors =
     (let vector_mean = map nanmean (transpose data);
          centred_data = map (\<lambda>row. map2 fsub row vector_mean) data
      in (centred_data, vector_mean))"

text \<open>
  \<^verbatim>\<open>np.linalg.svd\<close> is a collaborator outside the repository: it is a parameter
  \<open>svd\<close> that returns the triple \<^verbatim>\<open>(u, s, vh)\<close> or raises. Only
  \<^verbatim>\<open>LinAlgError\<close> is caught and replaced by the \<^verbatim>\<open>TypeError\<close> below.
\<close>

type_synonym svd_fun = "matrix \<Rightarrow> error + (matrix \<times> vector \<times> matrix)"

definition nonfinite_message :: string where
  "nonfinite_message =
     ''Cannot have nans present in the data. Please '' @
     ''set NaNs and infs to a reasonable finite number '' @
     ''before running the PCA. These bad values are '' @
     ''reconstructed using the gappy routines by setting '' @
     ''the `errors` array to the value `0` at these '' @
     ''locations to indicate these are masked values.'' @
     ''To do this, you can use the convenience function '' @
     ''`replace_nonfinite_with_median`''"

definition do_initial_SVD :: "svd_fun \<Rightarrow> matrix \<Rightarrow> error + (matrix \<times> vector)" where
  "do_initial_SVD svd data =
     (case svd data of
        Inl LinAlgError \<Rightarrow> Inl (TypeError nonfinite_message)
      | Inl e \<Rightarrow> Inl e
      | Inr (u, singular_values, eigen_vectors_T) \<Rightarrow> Inr (eigen_vectors_T, singular_values))"

definition get_eigen_system :: "svd_fun \<Rightarrow> matrix \<Rightarrow> error + (matrix \<times> vector)" where
  "get_eigen_system svd data =
     (case do_initial_SVD svd data of
        Inl e \<Rightarrow> Inl e
      | Inr (eigen_vectors_T, singular_values) \<Rightarrow>
          Inr (transpose eigen_vectors_T, map fsq singular_values))"

definition initalise_eigensystem :: "svd_fun \<Rightarrow> matrix \<Rightarrow> error + (matrix \<times> vector)" where
  "initalise_eigensystem svd data_centred =
     (let amount_of_data_vectors = length data_centred;
          data_normed =
            map (map (\<lambda>x. fdiv x (Fin (sqrt (real amount_of_data_vectors))))) data_centred
      in get_eigen_system svd data_normed)"

section \<open>Reconstruction and residuals\<close>

definition dot :: "vector \<Rightarrow> vector \<Rightarrow> npfloat" where
  "dot r c = fsum (map2 fmul r c)"

text \<open>
  \<^verbatim>\<open>np.matmul(a, b)\<close> raises \<^verbatim>\<open>ValueError\<close> unless the rows of \<open>a\<close> are as long
  as \<open>b\<close> has rows. \<^verbatim>\<open>np.matmul(e, e.T)\<close> pairs the rows of \<open>e\<close> with each
  other, since the columns of \<^verbatim>\<open>e.T\<close> are the rows of \<open>e\<close>; written that way
  the product keeps its shape when \<open>e\<close> has no column.
\<close>

definition matmul :: "matrix \<Rightarrow> matrix \<Rightarrow> error + matrix" where
  "matmul a b =
     (if list_all (\<lambda>r. length r = length b) a
      then Inr (map (\<lambda>r. map (dot r) (transpose b)) a)
      else Inl ValueError)"

definition matmul_by_transpose :: "matrix \<Rightarrow> matrix" where
  "matmul_by_transpose e = map (\<lambda>r. map (dot r) e) e"

definition reconstruct_observation :: "matrix \<Rightarrow> matrix \<Rightarrow> error + matrix" where
  "reconstruct_observation eigen_by_transpose observation_vector =
     matmul observation_vector eigen_by_transpose"

definition get_residual :: "matrix \<Rightarrow> matrix \<Rightarrow> error + matrix" where
  "get_residual observation_vector eigen_vector_matrix =
     (let eigen_by_transpose = matmul_by_transpose eigen_vector_matrix
      in case reconstruct_observation eigen_by_transpose observation_vector of
           Inl e \<Rightarrow> Inl e
         | Inr reconstruct_observation_vector \<Rightarrow>
             Inr (map2 (map2 fsub) observation_vector reconstruct_observation_vector))"

definition get_mag_residuals_sq :: "matrix \<Rightarrow> matrix \<Rightarrow> matrix option \<Rightarrow> error + vector" where
  "get_mag_residuals_sq data eigen_vectors error_map =
     (case get_residual data eigen_vectors of
        Inl e \<Rightarrow> Inl e
      | Inr residuals_transpose \<Rightarrow>
          (case mag_residual_sq residuals_transpose error_map of
             Inl e \<Rightarrow> Inl e
           | Inr (residuals_after, mag_residuals_squared) \<Rightarrow> Inr mag_residuals_squared))"

section \<open>Robust scale and running statistics\<close>

text \<open>
  The weighting function and its derivative (\<^verbatim>\<open>core.cauchy_like_function\<close> and
  \<^verbatim>\<open>core.derivate_of_cauchy_like_function\<close> by default) are collaborators outside
  the repository. They are parameters that give one value for one \<open>t\<close> and the
  shape parameter, and are applied to every entry of the array \<open>t\<close>.
\<close>

type_synonym weight_fun = "npfloat \<Rightarrow> npfloat \<Rightarrow> npfloat"

definition scale_round :: "vector \<Rightarrow> npfloat \<Rightarrow> weight_fun \<Rightarrow> npfloat \<Rightarrow> npfloat \<Rightarrow> npfloat" where
  "scale_round residuals_sq breakdown_point robust_function c_sq scale_sq =
     (let t = map (\<lambda>r. fdiv r scale_sq) residuals_sq;
          robust_weighting = map (\<lambda>x. robust_function x c_sq) t
      in fmul scale_sq (fdiv (nanmean robust_weighting) breakdown_point))"

fun scale_loop :: "nat \<Rightarrow> vector \<Rightarrow> npfloat \<Rightarrow> weight_fun \<Rightarrow> npfloat \<Rightarrow> npfloat \<Rightarrow> npfloat" where
  "scale_loop 0 residuals_sq breakdown_point robust_function c_sq scale_sq = scale_sq"
| "scale_loop (Suc i) residuals_sq breakdown_point robust_function c_sq scale_sq =
     scale_loop i residuals_sq breakdown_point robust_function c_sq
       (scale_round residuals_sq breakdown_point robust_function c_sq scale_sq)"

definition initalise_scale_using_residuals_sq ::
  "vector \<Rightarrow> npfloat \<Rightarrow> nat \<Rightarrow> weight_fun \<Rightarrow> npfloat \<Rightarrow> npfloat" where
  "initalise_scale_using_residuals_sq residuals_sq breakdown_point amount_of_eigen
       robust_function c_sq =
     scale_loop amount_of_eigen residuals_sq breakdown_point robust_function c_sq
       (nanmean residuals_sq)"

definition initalise_vqu :: "vector \<Rightarrow> npfloat \<Rightarrow> weight_fun \<Rightarrow> npfloat \<Rightarrow> vector" where
  "initalise_vqu residuals_sq scale_sq robust_derivative c_sq =
     (let t = map (\<lambda>r. fdiv r scale_sq) residuals_sq;
          weight1 = map (\<lambda>x. robust_derivative x c_sq) t;
          weight_coefficants_3 = map (\<lambda>x. Fin 1) weight1
      in [nanmean weight1, nanmean (map2 fmul weight1 residuals_sq),
          nanmean weight_coefficants_3])"

record eigen_system =
  es_U :: matrix
  es_m :: vector
  es_W :: vector
  es_vqu :: vector
  es_sig2 :: npfloat

definition input_for_pca :: "vector \<Rightarrow> vector \<Rightarrow> matrix \<Rightarrow> npfloat \<Rightarrow> vector \<Rightarrow> eigen_system" where
  "input_for_pca mean_array eigen_values eigen_vectors scale_sq vqu =
     \<lparr>es_U = eigen_vectors, es_m = mean_array, es_W = eigen_values, es_vqu = vqu,
      es_sig2 = scale_sq\<rparr>"

text \<open>
  \<^verbatim>\<open>1 - 1 / (amount_of_spectra * memory)\<close> is Python arithmetic: a zero divisor
  raises \<^verbatim>\<open>ZeroDivisionError\<close>.
\<close>

definition forget_parameter :: "nat \<Rightarrow> real \<Rightarrow> error + real" where
  "forget_parameter amount_of_spectra memory =
     (if real amount_of_spectra * memory = 0 then Inl ZeroDivisionError
      else Inr (1 - 1 / (real amount_of_spectra * memory)))"

text \<open>
  The counts \<open>amount_of_eigen\<close> and \<open>amount_to_initalise\<close> are natural numbers
  here (Python would also take negative ones, which slice from the end).
\<close>

definition initalise_robust_pca_param ::
  "svd_fun \<Rightarrow> matrix \<Rightarrow> matrix option \<Rightarrow> nat \<Rightarrow> nat \<Rightarrow> npfloat \<Rightarrow> weight_fun \<Rightarrow> weight_fun
     \<Rightarrow> npfloat \<Rightarrow> error + eigen_system" where
  "initalise_robust_pca_param svd data errors amount_of_eigen amount_to_initalise
       breakdown_point robust_function robust_derivative c_sq =
     (let (data_centred, mean_initial) = mean_subtracted_data data errors
      in case initalise_eigensystem svd data_centred of
           Inl e \<Rightarrow> Inl e
         | Inr (eigen_vectors_full, eigen_values_inital) \<Rightarrow>
             (let eigen_vectors_initial = map (take amount_of_eigen) eigen_vectors_full;
                  eigen_values_initial = take amount_of_eigen eigen_values_inital
              in case get_mag_residuals_sq (take amount_to_initalise data_centred)
                        eigen_vectors_initial errors of
                   Inl e \<Rightarrow> Inl e
                 | Inr residuals_sq \<Rightarrow>
                     (let scale_sq_initial =
                            initalise_scale_using_residuals_sq residuals_sq breakdown_point
                              amount_of_eigen robust_function c_sq;
                          vqu_initial =
                            initalise_vqu residuals_sq scale_sq_initial robust_derivative c_sq
                      in Inr (input_for_pca mean_initial eigen_values_initial
                                eigen_vectors_initial scale_sq_initial vqu_initial))))"

section \<open>Randomising the order of the observations\<close>

text \<open>
  \<^verbatim>\<open>np.random.shuffle\<close> draws from the generator of the numpy module, a state shared by
  the whole process. The state has a type \<open>'g\<close> of its own and the shuffle is a
  parameter: it takes the state and the index array and gives the shuffled array and
  the state it leaves behind.

  The argument \<^verbatim>\<open>errors\<close> is \<^verbatim>\<open>None\<close>, the list \<^verbatim>\<open>[None] * n\<close> that the driver
  builds, or an array. \<^verbatim>\<open>errors[0]\<close> raises \<^verbatim>\<open>IndexError\<close> on an empty list or
  array, and indexing an array with an index array raises it for an index out of range.
\<close>

type_synonym 'g shuffle_fun = "'g \<Rightarrow> nat list \<Rightarrow> nat list \<times> 'g"

datatype error_arg = ErrorsNone | ErrorsNoneList nat | ErrorsArray matrix

definition take_rows :: "'a list \<Rightarrow> nat list \<Rightarrow> error + 'a list" where
  "take_rows a idx =
     (if list_all (\<lambda>i. i < length a) idx then Inr (map (\<lambda>i. a ! i) idx) else Inl IndexError)"

definition randomise_data_order ::
  "'g shuffle_fun \<Rightarrow> matrix \<Rightarrow> error_arg \<Rightarrow> 'g \<Rightarrow> error + (matrix \<times> error_arg \<times> 'g)" where
  "randomise_data_order shuffle data errors g =
     (let amount_of_spectra = length data;
          (random_indicies, g') = shuffle g [0..<amount_of_spectra]
      in case take_rows data random_indicies of
           Inl e \<Rightarrow> Inl e
         | Inr data_random \<Rightarrow>
             (case errors of
                ErrorsNone \<Rightarrow> Inr (data_random, ErrorsNone, g')
              | ErrorsNoneList n \<Rightarrow>
                  if n = 0 then Inl IndexError else Inr (data_random, ErrorsNoneList n, g')
              | ErrorsArray em \<Rightarrow>
                  if em = [] then Inl IndexError
                  else (case take_rows em random_indicies of
                          Inl e \<Rightarrow> Inl e
                        | Inr errors_random \<Rightarrow> Inr (data_random, ErrorsArray errors_random, g'))))"

text \<open>The order in use in pass \<open>k\<close>: the order at the start, randomised \<open>k\<close> times.\<close>

fun order_of_pass ::
  "'g shuffle_fun \<Rightarrow> nat \<Rightarrow> matrix \<Rightarrow> error_arg \<Rightarrow> 'g \<Rightarrow> error + (matrix \<times> error_arg \<times> 'g)" where
  "order_of_pass shuffle 0 data errors g = Inr (data, errors, g)"
| "order_of_pass shuffle (Suc k) data errors g =
     (case randomise_data_order shuffle data errors g of
        Inl e \<Rightarrow> Inl e
      | Inr (data', errors', g') \<Rightarrow> order_of_pass shuffle k data' errors' g')"

section \<open>Tracking the eigen-system\<close>

record tracked =
  tr_W :: matrix
  tr_sig2 :: vector
  tr_vqu :: vector

text \<open>\<^verbatim>\<open>np.zeros\<close> raises \<^verbatim>\<open>ValueError\<close> for a negative dimension.\<close>

definition initialise_tracked_eigen_updates :: "int \<Rightarrow> nat \<Rightarrow> error + tracked" where
  "initialise_tracked_eigen_updates save_amount amount_of_eigen =
     (if save_amount < 0 then Inl ValueError
      else Inr \<lparr>tr_W = replicate (nat save_amount) (replicate amount_of_eigen (Fin 0)),
                tr_sig2 = replicate (nat save_amount) (Fin 0),
                tr_vqu = replicate (nat save_amount) (Fin 0)\<rparr>)"

text \<open>
  \<^verbatim>\<open>a[counter] = v\<close> raises \<^verbatim>\<open>IndexError\<close> when the array has no row \<open>counter\<close>; a
  vector is stored in a row of its length, a vector of length one is broadcast, and
  any other length raises \<^verbatim>\<open>ValueError\<close>.
\<close>

definition store_row :: "matrix \<Rightarrow> nat \<Rightarrow> vector \<Rightarrow> error + matrix" where
  "store_row rows i v =
     (if length rows \<le> i then Inl IndexError
      else if length v = length (rows ! i) then Inr (rows[i := v])
      else if length v = 1 then Inr (rows[i := replicate (length (rows ! i)) (hd v)])
      else Inl ValueError)"

definition store_scalar :: "vector \<Rightarrow> nat \<Rightarrow> npfloat \<Rightarrow> error + vector" where
  "store_scalar xs i x = (if length xs \<le> i then Inl IndexError else Inr (xs[i := x]))"

text \<open>
  The tracking dictionary starts as \<^verbatim>\<open>{}\<close>, here \<open>None\<close>; reading a key of the empty
  dictionary raises \<^verbatim>\<open>KeyError\<close>.
\<close>

definition track_eigensystem_updates ::
  "nat \<Rightarrow> eigen_system \<Rightarrow> tracked option \<Rightarrow> int \<Rightarrow> error + (tracked \<times> nat)" where
  "track_eigensystem_updates counter eigen_system_dict tracked_eigen_system_dict save_amount =
     (case (if counter = 0
            then (case initialise_tracked_eigen_updates save_amount
                         (length (es_W eigen_system_dict)) of
                    Inl e \<Rightarrow> Inl e
                  | Inr t \<Rightarrow> Inr (Some t))
            else Inr tracked_eigen_system_dict) of
        Inl e \<Rightarrow> Inl e
      | Inr None \<Rightarrow> Inl KeyError
      | Inr (Some t) \<Rightarrow>
          (case store_row (tr_W t) counter (es_W eigen_system_dict) of
             Inl e \<Rightarrow> Inl e
           | Inr w' \<Rightarrow>
               (case es_vqu eigen_system_dict of
                  [] \<Rightarrow> Inl IndexError
                | v # rest \<Rightarrow>
                    (case store_scalar (tr_vqu t) counter v of
                       Inl e \<Rightarrow> Inl e
                     | Inr vqu' \<Rightarrow>
                         (case store_scalar (tr_sig2 t) counter (es_sig2 eigen_system_dict) of
                            Inl e \<Rightarrow> Inl e
                          | Inr sig2' \<Rightarrow>
                              Inr (\<lparr>tr_W = w', tr_sig2 = sig2', tr_vqu = vqu'\<rparr>,
                                   counter + 1))))))"

section \<open>The update loop\<close>

text \<open>
  The incremental updaters \<^verbatim>\<open>core.iterate_PCA\<close> and
  \<^verbatim>\<open>core.iterate_PCA_with_data_gaps\<close> are collaborators outside the repository, taken as
  parameters: a state, an observation, the forget parameter, the mask row or
  \<^verbatim>\<open>None\<close>, the breakdown point and the shape parameter give the next state.
\<close>

type_synonym updater =
  "eigen_system \<Rightarrow> vector \<Rightarrow> real \<Rightarrow> vector option \<Rightarrow> npfloat \<Rightarrow> npfloat \<Rightarrow> eigen_system"

definition row_at :: "matrix \<Rightarrow> nat \<Rightarrow> error + vector" where
  "row_at data sp = (if sp < length data then Inr (data ! sp) else Inl IndexError)"

definition error_array_at :: "error_arg \<Rightarrow> nat \<Rightarrow> error + vector option" where
  "error_array_at errors sp =
     (case errors of
        ErrorsNone \<Rightarrow> Inl (TypeError ''NoneType object is not subscriptable'')
      | ErrorsNoneList n \<Rightarrow> if sp < n then Inr None else Inl IndexError
      | ErrorsArray em \<Rightarrow> if sp < length em then Inr (Some (em ! sp)) else Inl IndexError)"

text \<open>
  The loop state of the program is the eigen-system, the tracking dictionary and the
  counter. The model adds what the claims speak about and the program does not store:
  the list of the calls of the updater, each with the pass, the index, the state before
  and after, the observation and mask row passed and the number of rows of the tracking
  buffer at that moment, and the number of times the buffer was allocated.
\<close>

record update_call =
  uc_pass :: nat
  uc_index :: nat
  uc_state :: eigen_system
  uc_spectrum :: vector
  uc_error_array :: "vector option"
  uc_next :: eigen_system
  uc_rows :: nat

record loop_state =
  ls_eigen :: eigen_system
  ls_tracked :: "tracked option"
  ls_counter :: nat
  ls_calls :: "update_call list"
  ls_allocations :: nat

definition process_spectrum ::
  "updater \<Rightarrow> matrix \<Rightarrow> error_arg \<Rightarrow> real \<Rightarrow> npfloat \<Rightarrow> npfloat \<Rightarrow> int \<Rightarrow> nat \<Rightarrow> nat
     \<Rightarrow> loop_state \<Rightarrow> error + loop_state" where
  "process_spectrum pca_function data errors forget_param breakdown_point c_sq save_amount k sp st =
     (case track_eigensystem_updates (ls_counter st) (ls_eigen st) (ls_tracked st) save_amount of
        Inl e \<Rightarrow> Inl e
      | Inr (tracked_eigen_system_dict, counter) \<Rightarrow>
          (case row_at data sp of
             Inl e \<Rightarrow> Inl e
           | Inr new_spectra \<Rightarrow>
               (case error_array_at errors sp of
                  Inl e \<Rightarrow> Inl e
                | Inr error_array \<Rightarrow>
                    (let eigen_system_dict =
                           pca_function (ls_eigen st) new_spectra forget_param error_array
                             breakdown_point c_sq
                     in Inr \<lparr>ls_eigen = eigen_system_dict,
                             ls_tracked = Some tracked_eigen_system_dict,
                             ls_counter = counter,
                             ls_calls = ls_calls st @
                               [\<lparr>uc_pass = k, uc_index = sp, uc_state = ls_eigen st,
                                 uc_spectrum = new_spectra, uc_error_array = error_array,
                                 uc_next = eigen_system_dict,
                                 uc_rows = length (tr_W tracked_eigen_system_dict)\<rparr>],
                             ls_allocations =
                               (if ls_counter st = 0 then Suc (ls_allocations st)
                                else ls_allocations st)\<rparr>))))"

fun process_spectra ::
  "updater \<Rightarrow> matrix \<Rightarrow> error_arg \<Rightarrow> real \<Rightarrow> npfloat \<Rightarrow> npfloat \<Rightarrow> int \<Rightarrow> nat \<Rightarrow> nat list
     \<Rightarrow> loop_state \<Rightarrow> error + loop_state" where
  "process_spectra pca_function data errors forget_param breakdown_point c_sq save_amount k [] st =
     Inr st"
| "process_spectra pca_function data errors forget_param breakdown_point c_sq save_amount k
       (sp # sps) st =
     (case process_spectrum pca_function data errors forget_param breakdown_point c_sq
             save_amount k sp st of
        Inl e \<Rightarrow> Inl e
      | Inr st' \<Rightarrow>
          process_spectra pca_function data errors forget_param breakdown_point c_sq
            save_amount k sps st')"

text \<open>
  The loop over the passes: \<open>n\<close> passes are left, \<open>k\<close> is the number of the current
  one and \<open>start\<close> its first index. The order is randomised at the end of every pass.
\<close>

fun run_passes ::
  "'g shuffle_fun \<Rightarrow> updater \<Rightarrow> nat \<Rightarrow> real \<Rightarrow> npfloat \<Rightarrow> npfloat \<Rightarrow> int \<Rightarrow> nat \<Rightarrow> nat \<Rightarrow> nat
     \<Rightarrow> matrix \<Rightarrow> error_arg \<Rightarrow> 'g \<Rightarrow> loop_state
     \<Rightarrow> error + (loop_state \<times> matrix \<times> error_arg \<times> 'g)" where
  "run_passes shuffle pca_function amount_of_spectra forget_param breakdown_point c_sq
       save_amount 0 k start data errors g st = Inr (st, data, errors, g)"
| "run_passes shuffle pca_function amount_of_spectra forget_param breakdown_point c_sq
       save_amount (Suc n) k start data errors g st =
     (case process_spectra pca_function data errors forget_param breakdown_point c_sq
             save_amount k [start..<amount_of_spectra] st of
        Inl e \<Rightarrow> Inl e
      | Inr st' \<Rightarrow>
          (case randomise_data_order shuffle data errors g of
             Inl e \<Rightarrow> Inl e
           | Inr (data', errors', g') \<Rightarrow>
               run_passes shuffle pca_function amount_of_spectra forget_param breakdown_point
                 c_sq save_amount n (Suc k) 0 data' errors' g' st'))"

text \<open>
  Lines 542 to 562 of the driver: the counter, the size of the tracking buffer, the
  empty tracking dictionary, and the loop.
\<close>

definition update_loop ::
  "'g shuffle_fun \<Rightarrow> updater \<Rightarrow> nat \<Rightarrow> nat \<Rightarrow> nat \<Rightarrow> real \<Rightarrow> npfloat \<Rightarrow> npfloat
     \<Rightarrow> matrix \<Rightarrow> error_arg \<Rightarrow> 'g \<Rightarrow> eigen_system
     \<Rightarrow> error + (loop_state \<times> matrix \<times> error_arg \<times> 'g)" where
  "update_loop shuffle pca_function amount_of_spectra number_of_iterations amount_to_initalise
       forget_param breakdown_point c_sq data errors g eigen_system_dict =
     (let counter = 0;
          save_amount = int amount_of_spectra * int number_of_iterations
                          - int amount_to_initalise + 1;
          start = amount_to_initalise
      in run_passes shuffle pca_function amount_of_spectra forget_param breakdown_point c_sq
           save_amount number_of_iterations 0 start data errors g
           \<lparr>ls_eigen = eigen_system_dict, ls_tracked = None, ls_counter = counter,
            ls_calls = [], ls_allocations = 0\<rparr>)"

section \<open>The driver\<close>

text \<open>
  The collaborators of the driver, all outside the repository: the sanitizer
  \<^verbatim>\<open>util.check_and_make_data_finite\<close>, numpy's decomposition and shuffle, the weighting
  function and its derivative, and the two updaters.
\<close>

record 'g collaborators =
  co_check_and_make_data_finite :: "matrix \<Rightarrow> matrix option \<Rightarrow> matrix \<times> matrix option"
  co_svd :: svd_fun
  co_shuffle :: "'g shuffle_fun"
  co_cauchy_like_function :: weight_fun
  co_derivate_of_cauchy_like_function :: weight_fun
  co_iterate_PCA :: updater
  co_iterate_PCA_with_data_gaps :: updater

datatype run_output = Eigen eigen_system | EigenTracked eigen_system "tracked option"

record 'g run_result =
  rr_output :: run_output
  rr_calls :: "update_call list"
  rr_rng :: 'g

definition errors_arg :: "matrix option \<Rightarrow> error_arg" where
  "errors_arg errors = (case errors of None \<Rightarrow> ErrorsNone | Some em \<Rightarrow> ErrorsArray em)"

definition errors_opt :: "error_arg \<Rightarrow> matrix option" where
  "errors_opt errors = (case errors of ErrorsArray em \<Rightarrow> Some em | _ \<Rightarrow> None)"

text \<open>
  \<^verbatim>\<open>np.random.seed = 1\<close> assigns the number one to the attribute \<^verbatim>\<open>seed\<close> of the
  module \<^verbatim>\<open>np.random\<close>: it calls nothing and leaves the generator as it is, so the
  model has no step for it. The parameter \<open>random_seed\<close> is read nowhere. The
  bootstrap is called without \<^verbatim>\<open>c_sq\<close> and without the weighting functions, so it
  takes its defaults, \<^verbatim>\<open>0.787**2\<close> and the functions of \<^verbatim>\<open>core\<close>.
\<close>

definition run_robust_pca ::
  "'g collaborators \<Rightarrow> matrix \<Rightarrow> matrix option \<Rightarrow> nat \<Rightarrow> nat \<Rightarrow> nat \<Rightarrow> real option \<Rightarrow> npfloat
     \<Rightarrow> real \<Rightarrow> bool \<Rightarrow> npfloat \<Rightarrow> int \<Rightarrow> 'g \<Rightarrow> error + 'g run_result" where
  "run_robust_pca co data0 errors0 amount_of_eigen amount_to_initalise number_of_iterations
       forget_param0 breakdown_point memory save_extra_param c_sq random_seed g0 =
     (let (data1, errors1) = co_check_and_make_data_finite co data0 errors0;
          amount_of_spectra = length data1
      in case (case forget_param0 of
                 None \<Rightarrow> forget_parameter amount_of_spectra memory
               | Some a \<Rightarrow> Inr a) of
           Inl e \<Rightarrow> Inl e
         | Inr forget_param \<Rightarrow>
             (case randomise_data_order (co_shuffle co) data1 (errors_arg errors1) g0 of
                Inl e \<Rightarrow> Inl e
              | Inr (data, errors, g1) \<Rightarrow>
                  (case initalise_robust_pca_param (co_svd co) data (errors_opt errors)
                          amount_of_eigen amount_to_initalise breakdown_point
                          (co_cauchy_like_function co) (co_derivate_of_cauchy_like_function co)
                          (Fin ((787 / 1000) * (787 / 1000))) of
                     Inl e \<Rightarrow> Inl e
                   | Inr eigen_system_dict \<Rightarrow>
                       (let pca_function =
                              (if errors \<noteq> ErrorsNone then co_iterate_PCA_with_data_gaps co
                               else co_iterate_PCA co);
                            errors_list =
                              (if errors \<noteq> ErrorsNone then errors
                               else ErrorsNoneList amount_of_spectra)
                        in case update_loop (co_shuffle co) pca_function amount_of_spectra
                                  number_of_iterations amount_to_initalise forget_param
                                  breakdown_point c_sq data errors_list g1 eigen_system_dict of
                             Inl e \<Rightarrow> Inl e
                           | Inr (st, data', errors', g') \<Rightarrow>
                               Inr \<lparr>rr_output =
                                      (if save_extra_param
                                       then EigenTracked (ls_eigen st) (ls_tracked st)
                                       else Eigen (ls_eigen st)),
                                    rr_calls = ls_calls st, rr_rng = g'\<rparr>))))"

section \<open>Finite input and stand-ins for the collaborators\<close>

text \<open>An array is finite when no entry is an infinity or \<^verbatim>\<open>nan\<close>.\<close>

fun is_fin :: "npfloat \<Rightarrow> bool" where
  "is_fin (Fin a) = True"
| "is_fin x = False"

fun the_fin :: "npfloat \<Rightarrow> real" where
  "the_fin (Fin a) = a"
| "the_fin x = 0"

definition all_finite :: "matrix \<Rightarrow> bool" where
  "all_finite a = list_all (list_all is_fin) a"

fun no_neg_inf :: "npfloat \<Rightarrow> bool" where
  "no_neg_inf (Fin a) = True"
| "no_neg_inf PInf = True"
| "no_neg_inf x = False"

text \<open>
  The examples need a decomposition and a weighting function that can be evaluated.
  \<open>svd_orthogonal_columns\<close> stands for \<^verbatim>\<open>np.linalg.svd\<close>: on a finite matrix whose
  columns are orthogonal to each other, with norms in descending order, the singular
  values are the column norms and the right singular vectors are the unit vectors; the
  examples use such matrices only. It raises \<^verbatim>\<open>LinAlgError\<close> on an input that is
  not finite, and leaves out the left singular vectors, which the program discards.
  \<open>cauchy_weight\<close> stands for a weighting function, \<open>1 / (1 + t / c_sq)\<close>.
\<close>

definition column_norm :: "vector \<Rightarrow> npfloat" where
  "column_norm col = Fin (sqrt (sum_list (map (\<lambda>x. the_fin x * the_fin x) col)))"

definition identity_matrix :: "nat \<Rightarrow> matrix" where
  "identity_matrix n = map (\<lambda>i. map (\<lambda>j. if i = j then Fin 1 else Fin 0) [0..<n]) [0..<n]"

definition svd_orthogonal_columns :: svd_fun where
  "svd_orthogonal_columns a =
     (if all_finite a
      then Inr ([], map column_norm (transpose a), identity_matrix (length (transpose a)))
      else Inl LinAlgError)"

definition cauchy_weight :: weight_fun where
  "cauchy_weight t c_sq = fdiv c_sq (fadd c_sq t)"

text \<open>
  The examples of the driver need a shuffle and an updater that can be evaluated.
  \<open>rotating_shuffle\<close> stands for \<^verbatim>\<open>np.random.shuffle\<close>, the state of the generator
  being a counter: it rotates the index array by the counter and increments the counter.
  \<open>remember_spectrum\<close> stands for an updater: it stores the observation as the mean
  and leaves the rest of the state as it is.
\<close>

definition rotating_shuffle :: "nat shuffle_fun" where
  "rotating_shuffle g xs = (rotate g xs, Suc g)"

definition remember_spectrum :: updater where
  "remember_spectrum eigen_system_dict new_spectra alpha error_array delta c_sq =
     eigen_system_dict\<lparr>es_m := new_spectra\<rparr>"

definition example_collaborators :: "nat collaborators" where
  "example_collaborators =
     \<lparr>co_check_and_make_data_finite = (\<lambda>data errors. (data, errors)),
      co_svd = svd_orthogonal_columns,
      co_shuffle = rotating_shuffle,
      co_cauchy_like_function = cauchy_weight,
      co_derivate_of_cauchy_like_function = cauchy_weight,
      co_iterate_PCA = remember_spectrum,
      co_iterate_PCA_with_data_gaps = remember_spectrum\<rparr>"

section \<open>Notions used in the properties\<close>

text \<open>
  A permutation of the indices below \<open>n\<close>, and an \<^verbatim>\<open>errors\<close> argument that the
  randomiser can index: \<^verbatim>\<open>None\<close>, a list that is not empty, or an array with a row
  for every observation.
\<close>

definition is_permutation_of_indices :: "nat list \<Rightarrow> nat \<Rightarrow> bool" where
  "is_permutation_of_indices perm n = (distinct perm \<and> set perm = set [0..<n])"

definition errors_long_enough :: "error_arg \<Rightarrow> nat \<Rightarrow> bool" where
  "errors_long_enough errors n =
     (case errors of
        ErrorsNone \<Rightarrow> True
      | ErrorsNoneList m \<Rightarrow> m \<noteq> 0
      | ErrorsArray em \<Rightarrow> em \<noteq> [] \<and> n \<le> length em)"

text \<open>
  What the loop needs of its collaborators. The tracking buffer takes a row of
  eigenvalues of the width \<open>w\<close> it was allocated with and the first entry of
  \<^verbatim>\<open>vqu\<close>, so the updater has to keep the number of eigenvalues and return a
  \<^verbatim>\<open>vqu\<close> that is not empty; the shuffle has to return a permutation of the index
  array; and \<^verbatim>\<open>errors\<close>, indexed by the loop, has to be a list or array with an
  entry for every observation (the driver replaces \<^verbatim>\<open>None\<close> by such a list).
\<close>

definition well_formed :: "nat \<Rightarrow> eigen_system \<Rightarrow> bool" where
  "well_formed w es = (length (es_W es) = w \<and> es_vqu es \<noteq> [])"

definition updater_keeps_shape :: "nat \<Rightarrow> updater \<Rightarrow> bool" where
  "updater_keeps_shape w f =
     (\<forall>es x a e d c. well_formed w es \<longrightarrow> well_formed w (f es x a e d c))"

definition shuffle_permutes :: "'g shuffle_fun \<Rightarrow> bool" where
  "shuffle_permutes sh = (\<forall>g n. is_permutation_of_indices (fst (sh g [0..<n])) n)"

definition errors_cover :: "error_arg \<Rightarrow> nat \<Rightarrow> bool" where
  "errors_cover errors n =
     (case errors of
        ErrorsNone \<Rightarrow> False
      | ErrorsNoneList m \<Rightarrow> n \<le> m
      | ErrorsArray em \<Rightarrow> n \<le> length em)"

text \<open>
  A call of the updater is identified by the pass, the index, the observation and the
  mask row. \<open>chained s cs t\<close> says that the calls \<open>cs\<close> lead from the state \<open>s\<close>
  to the state \<open>t\<close>, each one starting in the state the one before has returned.
  \<open>spectrum_of_pass\<close> is the observation and mask row at an index in the order in use
  in pass \<open>k\<close>.
\<close>

definition mask_row_at :: "error_arg \<Rightarrow> nat \<Rightarrow> vector option" where
  "mask_row_at errors sp = (case errors of ErrorsArray em \<Rightarrow> Some (em ! sp) | _ \<Rightarrow> None)"

definition call_key :: "update_call \<Rightarrow> nat \<times> nat \<times> vector \<times> vector option" where
  "call_key c = (uc_pass c, uc_index c, uc_spectrum c, uc_error_array c)"

fun chained :: "eigen_system \<Rightarrow> update_call list \<Rightarrow> eigen_system \<Rightarrow> bool" where
  "chained s [] t = (s = t)"
| "chained s (c # cs) t = (uc_state c = s \<and> chained (uc_next c) cs t)"

definition pass_indices :: "nat \<Rightarrow> nat \<Rightarrow> nat \<Rightarrow> nat list" where
  "pass_indices seed_size n k = (if k = 0 then [seed_size..<n] else [0..<n])"

definition spectrum_of_pass ::
  "'g shuffle_fun \<Rightarrow> nat \<Rightarrow> matrix \<Rightarrow> error_arg \<Rightarrow> 'g \<Rightarrow> nat \<Rightarrow> vector \<times> vector option" where
  "spectrum_of_pass shuffle k data errors g sp =
     (case order_of_pass shuffle k data errors g of
        Inl e \<Rightarrow> ([], None)
      | Inr (data', errors', g') \<Rightarrow> (data' ! sp, mask_row_at errors' sp))"

text \<open>
  The tracking buffer has \<open>save\<close> rows, the eigenvalue rows of width \<open>w\<close>; row \<open>i\<close>
  holds the eigenvalues, scale and first \<^verbatim>\<open>vqu\<close> entry of the state in which call
  \<open>i\<close> of the updater started, and the rows from \<open>n\<close> on still hold the zeros of
  \<^verbatim>\<open>np.zeros\<close>. \<open>loop_inv\<close> is the invariant of the loop.
\<close>

definition buffer_shape :: "nat \<Rightarrow> nat \<Rightarrow> tracked \<Rightarrow> bool" where
  "buffer_shape save w t =
     (length (tr_W t) = save \<and> list_all (\<lambda>r. length r = w) (tr_W t) \<and>
      length (tr_sig2 t) = save \<and> length (tr_vqu t) = save)"

definition rows_recorded :: "tracked \<Rightarrow> update_call list \<Rightarrow> bool" where
  "rows_recorded t calls =
     (\<forall>i<length calls.
        tr_W t ! i = es_W (uc_state (calls ! i)) \<and>
        tr_sig2 t ! i = es_sig2 (uc_state (calls ! i)) \<and>
        tr_vqu t ! i = hd (es_vqu (uc_state (calls ! i))))"

definition rows_untouched :: "nat \<Rightarrow> tracked \<Rightarrow> nat \<Rightarrow> bool" where
  "rows_untouched w t n =
     (\<forall>i. n \<le> i \<longrightarrow>
        (i < length (tr_W t) \<longrightarrow> tr_W t ! i = replicate w (Fin 0)) \<and>
        (i < length (tr_sig2 t) \<longrightarrow> tr_sig2 t ! i = Fin 0) \<and>
        (i < length (tr_vqu t) \<longrightarrow> tr_vqu t ! i = Fin 0))"

definition loop_inv ::
  "updater \<Rightarrow> real \<Rightarrow> npfloat \<Rightarrow> npfloat \<Rightarrow> nat \<Rightarrow> nat \<Rightarrow> eigen_system \<Rightarrow> loop_state \<Rightarrow> bool" where
  "loop_inv f alpha delta c_sq save w es0 st =
     (well_formed w (ls_eigen st) \<and>
      ls_counter st = length (ls_calls st) \<and>
      chained es0 (ls_calls st) (ls_eigen st) \<and>
      list_all (\<lambda>c. uc_next c = f (uc_state c) (uc_spectrum c) alpha (uc_error_array c) delta c_sq \<and>
                    uc_rows c = save) (ls_calls st) \<and>
      (if ls_calls st = [] then ls_allocations st = 0
       else ls_allocations st = 1 \<and>
            (\<exists>t. ls_tracked st = Some t \<and> buffer_shape save w t \<and>
                 rows_recorded t (ls_calls st) \<and>
                 rows_untouched w t (length (ls_calls st)))))"

text \<open>The number of update steps of \<open>n\<close> passes, the first one starting at \<open>start\<close>.\<close>

definition steps_left :: "nat \<Rightarrow> nat \<Rightarrow> nat \<Rightarrow> nat" where
  "steps_left n start amount_of_spectra =
     (case n of 0 \<Rightarrow> 0 | Suc m \<Rightarrow> (amount_of_spectra - start) + m * amount_of_spectra)"

text \<open>
  The updater that the driver selects and the \<^verbatim>\<open>errors\<close> list that its loop indexes,
  as the driver computes them from the \<^verbatim>\<open>errors\<close> it has after the randomiser.
\<close>

definition pca_function_for :: "'g collaborators \<Rightarrow> error_arg \<Rightarrow> updater" where
  "pca_function_for co errors =
     (if errors \<noteq> ErrorsNone then co_iterate_PCA_with_data_gaps co else co_iterate_PCA co)"

definition errors_list_for :: "error_arg \<Rightarrow> nat \<Rightarrow> error_arg" where
  "errors_list_for errors amount_of_spectra =
     (if errors \<noteq> ErrorsNone then errors else ErrorsNoneList amount_of_spectra)"

text \<open>The observations in the order in which a run has passed them to the updater.\<close>

definition processing_order :: "error + 'g run_result \<Rightarrow> error + vector list" where
  "processing_order r =
     (case r of
        Inl e \<Rightarrow> Inl e
      | Inr res \<Rightarrow> Inr (map uc_spectrum (rr_calls res)))"

section \<open>Verified properties\<close>

subsection \<open>Masked squared residuals\<close>

lemma not_nan_fsq: "not_nan (fsq x) = not_nan x"
  by (cases x) (simp_all add: fsq_def not_nan_def)

lemma filter_sq_masked2:
  "filter not_nan (map fsq (map (\<lambda>(x, e). mask_entry x e) zs)) =
   filter not_nan (map fsq (map fst (filter (\<lambda>(x, e). e \<noteq> Fin 0) zs)))"
  by (induction zs) (auto simp: mask_entry_def not_nan_fsq fsq_def not_nan_def)

lemma nansum_sq_masked:
  "nansum (map fsq (map2 mask_entry row mask_row)) = nansum (map fsq (kept_entries row mask_row))"
  using filter_sq_masked2 [of "zip row mask_row"]
  by (simp add: nansum_def kept_entries_def)

lemma nansum_plain: "list_all not_nan xs \<Longrightarrow> nansum xs = fsum xs"
  by (simp add: nansum_def list_all_iff)

lemma same_shape_length: "same_shape a b \<Longrightarrow> length a = length b"
  by (simp add: same_shape_def list_all2_lengthD)

lemma same_shape_nth: "same_shape a b \<Longrightarrow> i < length a \<Longrightarrow> length (a ! i) = length (b ! i)"
  unfolding same_shape_def by (drule list_all2_nthD) auto

lemma mag_residual_sq_Some:
  assumes "mag_residual_sq r (Some em) = Inr (r', out)"
  shows "same_shape r (take (length r) em)"
    and "r' = map2 (map2 mask_entry) r (take (length r) em)"
    and "out = sum_sq_rows r'"
  using assms by (auto simp: mag_residual_sq_def Let_def split: if_splits)


lemma same_shape_take_le: "same_shape r (take (length r) em) \<Longrightarrow> length r \<le> length em"
  by (drule same_shape_length) simp

lemma masked_rows_nth:
  assumes "same_shape r (take (length r) em)" and "i < length r"
  shows "map2 (map2 mask_entry) r (take (length r) em) ! i = map2 mask_entry (r ! i) (em ! i)"
    and "length (em ! i) = length (r ! i)"
proof -
  have le: "length r \<le> length em"
    using assms(1) by (rule same_shape_take_le)
  show "map2 (map2 mask_entry) r (take (length r) em) ! i = map2 mask_entry (r ! i) (em ! i)"
    using assms(2) le by simp
  show "length (em ! i) = length (r ! i)"
    using same_shape_nth [OF assms] assms(2) by simp
qed

lemma one_zero_entry:
  assumes "length mask_row = length row" and "j < length row"
    and "\<forall>k<length row. (mask_row ! k = Fin 0) = (k = j)"
  shows "map2 mask_entry row mask_row = row[j := NaN]"
  using assms by (intro nth_equalityI) (auto simp: mask_entry_def nth_list_update)

text \<open>
  Claim C8. For every residual matrix and optional mask, the squared-magnitude residual
  of an observation is the sum of the squared entries over the features that the mask
  does not flag with a zero: the flagged entries are forced to \<^verbatim>\<open>nan\<close> and the sum
  ignores them (it is the plain sum when no kept entry is \<^verbatim>\<open>nan\<close>). With exactly
  one zero in a mask row the result is the sum after forcing that one entry to
  \<^verbatim>\<open>nan\<close>. Only the leading rows of a mask with more rows than the residual matrix
  are applied. Without a mask every row is summed as it is.
\<close>

theorem mag_residual_sq_masked_sum:
  "mag_residual_sq r None = Inr (r, map (\<lambda>row. nansum (map fsq row)) r) \<and>
   mag_residual_sq r (Some em) = mag_residual_sq r (Some (take (length r) em)) \<and>
   (same_shape r (take (length r) em) \<longrightarrow>
      (\<exists>r' out. mag_residual_sq r (Some em) = Inr (r', out))) \<and>
   (\<forall>r' out. mag_residual_sq r (Some em) = Inr (r', out) \<longrightarrow>
      length out = length r \<and>
      (\<forall>i<length r.
         out ! i = nansum (map fsq (kept_entries (r ! i) (em ! i))) \<and>
         out ! i = nansum (map fsq (map2 mask_entry (r ! i) (em ! i))) \<and>
         (list_all not_nan (kept_entries (r ! i) (em ! i)) \<longrightarrow>
            out ! i = fsum (map fsq (kept_entries (r ! i) (em ! i)))) \<and>
         (\<forall>j<length (r ! i). (\<forall>k<length (r ! i). (em ! i ! k = Fin 0) = (k = j)) \<longrightarrow>
            out ! i = nansum (map fsq ((r ! i)[j := NaN])))))"
proof (intro conjI allI impI)
  show "mag_residual_sq r None = Inr (r, map (\<lambda>row. nansum (map fsq row)) r)"
    by (simp add: mag_residual_sq_def sum_sq_rows_def)
  show "mag_residual_sq r (Some em) = mag_residual_sq r (Some (take (length r) em))"
    by (simp add: mag_residual_sq_def)
  show "\<exists>r' out. mag_residual_sq r (Some em) = Inr (r', out)"
    if "same_shape r (take (length r) em)"
    using that by (simp add: mag_residual_sq_def Let_def)
next
  fix r' out
  assume ok: "mag_residual_sq r (Some em) = Inr (r', out)"
  note facts = mag_residual_sq_Some [OF ok]
  have le: "length r \<le> length em"
    using facts(1) by (rule same_shape_take_le)
  show "length out = length r"
    using facts(2,3) le by (simp add: sum_sq_rows_def)
  fix i
  assume i: "i < length r"
  have row: "out ! i = nansum (map fsq (map2 mask_entry (r ! i) (em ! i)))"
    using facts(2,3) le i masked_rows_nth(1) [OF facts(1) i]
    by (simp add: sum_sq_rows_def)
  show "out ! i = nansum (map fsq (map2 mask_entry (r ! i) (em ! i)))"
    by (rule row)
  show kept: "out ! i = nansum (map fsq (kept_entries (r ! i) (em ! i)))"
    using row nansum_sq_masked [of "r ! i" "em ! i"] by (rule trans)
  show "out ! i = fsum (map fsq (kept_entries (r ! i) (em ! i)))"
    if "list_all not_nan (kept_entries (r ! i) (em ! i))"
  proof -
    have "list_all not_nan (map fsq (kept_entries (r ! i) (em ! i)))"
      using that by (simp add: list_all_iff not_nan_fsq)
    then show ?thesis using kept by (simp add: nansum_plain)
  qed
  fix j
  assume "j < length (r ! i)" and "\<forall>k<length (r ! i). (em ! i ! k = Fin 0) = (k = j)"
  then have "map2 mask_entry (r ! i) (em ! i) = (r ! i)[j := NaN]"
    using masked_rows_nth(2) [OF facts(1) i] by (intro one_zero_entry) auto
  then show "out ! i = nansum (map fsq ((r ! i)[j := NaN]))"
    using row by simp
qed

theorem mag_residual_sq_masked_sum_witness:
  "same_shape [[Fin 1, Fin 2], [Fin 3, Fin 4]]
     (take 2 [[Fin 1, Fin 0], [Fin 1, Fin 1], [Fin 0, Fin 0]]) \<and>
   mag_residual_sq [[Fin 1, Fin 2], [Fin 3, Fin 4]]
     (Some [[Fin 1, Fin 0], [Fin 1, Fin 1], [Fin 0, Fin 0]]) =
     Inr ([[Fin 1, NaN], [Fin 3, Fin 4]], [Fin 1, Fin 25]) \<and>
   list_all not_nan (kept_entries [Fin 1, Fin 2] [Fin 1, Fin 0]) \<and>
   fsum (map fsq (kept_entries [Fin 1, Fin 2] [Fin 1, Fin 0])) = Fin 1 \<and>
   nansum (map fsq ([Fin 1, Fin 2][1 := NaN])) = Fin 1"
  using mag_residual_sq_masked_sum
    [of "[[Fin 1, Fin 2], [Fin 3, Fin 4]]" "[[Fin 1, Fin 0], [Fin 1, Fin 1], [Fin 0, Fin 0]]"]
  by (simp add: mag_residual_sq_def same_shape_def sum_sq_rows_def mask_entry_def nansum_def
      fsum_def fsq_def not_nan_def kept_entries_def)

text \<open>
  Claim C10. Called with a mask, the routine overwrites its residuals argument: after
  the call the array holds \<^verbatim>\<open>nan\<close> at every position whose mask entry is zero and
  its old value elsewhere, so it differs from the array passed in as soon as one
  flagged entry was not \<^verbatim>\<open>nan\<close> already. Without a mask, or with a mask that has
  no zero, the argument is left as it was.
\<close>

theorem mag_residual_sq_overwrites_argument:
  "(\<exists>out. mag_residual_sq r None = Inr (r, out)) \<and>
   (\<forall>r' out. mag_residual_sq r (Some em) = Inr (r', out) \<longrightarrow>
      length r' = length r \<and>
      (\<forall>i<length r. length (r' ! i) = length (r ! i) \<and>
         (\<forall>j<length (r ! i). r' ! i ! j = (if em ! i ! j = Fin 0 then NaN else r ! i ! j))) \<and>
      ((\<forall>i<length r. \<forall>j<length (r ! i). em ! i ! j \<noteq> Fin 0) \<longrightarrow> r' = r) \<and>
      ((\<exists>i<length r. \<exists>j<length (r ! i). em ! i ! j = Fin 0 \<and> r ! i ! j \<noteq> NaN) \<longrightarrow> r' \<noteq> r))"
proof (intro conjI allI impI)
  show "\<exists>out. mag_residual_sq r None = Inr (r, out)"
    by (simp add: mag_residual_sq_def)
next
  fix r' out
  assume ok: "mag_residual_sq r (Some em) = Inr (r', out)"
  note facts = mag_residual_sq_Some [OF ok]
  have le: "length r \<le> length em"
    using facts(1) by (rule same_shape_take_le)
  show len': "length r' = length r"
    using facts(2) le by simp
  have entry: "length (r' ! i) = length (r ! i) \<and>
      (\<forall>j<length (r ! i). r' ! i ! j = (if em ! i ! j = Fin 0 then NaN else r ! i ! j))"
    if i: "i < length r" for i
  proof -
    have "r' ! i = map2 mask_entry (r ! i) (em ! i)"
      using facts(2) masked_rows_nth(1) [OF facts(1) i] by simp
    then show ?thesis
      using masked_rows_nth(2) [OF facts(1) i] by (simp add: mask_entry_def)
  qed
  show "length (r' ! i) = length (r ! i)" if "i < length r" for i
    using entry [OF that] by simp
  show "r' ! i ! j = (if em ! i ! j = Fin 0 then NaN else r ! i ! j)"
    if "i < length r" "j < length (r ! i)" for i j
    using entry [OF that(1)] that(2) by simp
  show "r' = r" if "\<forall>i<length r. \<forall>j<length (r ! i). em ! i ! j \<noteq> Fin 0"
  proof (rule nth_equalityI [OF len'])
    fix i assume "i < length r'"
    then have i: "i < length r" using len' by simp
    show "r' ! i = r ! i"
      using entry [OF i] that i by (intro nth_equalityI) auto
  qed
  show "r' \<noteq> r" if "\<exists>i<length r. \<exists>j<length (r ! i). em ! i ! j = Fin 0 \<and> r ! i ! j \<noteq> NaN"
  proof -
    from that obtain i j where ij: "i < length r" "j < length (r ! i)"
      "em ! i ! j = Fin 0" "r ! i ! j \<noteq> NaN" by blast
    have "r' ! i ! j = NaN" using entry [OF ij(1)] ij(2,3) by simp
    then show ?thesis using ij(4) by auto
  qed
qed

theorem mag_residual_sq_overwrites_argument_witness:
  "mag_residual_sq [[Fin 1, Fin 2], [Fin 3, Fin 4]] (Some [[Fin 1, Fin 0], [Fin 1, Fin 1]]) =
     Inr ([[Fin 1, NaN], [Fin 3, Fin 4]], [Fin 1, Fin 25]) \<and>
   [[Fin 1, Fin 0], [Fin 1, Fin 1]] ! 0 ! 1 = Fin 0 \<and>
   [[Fin 1, Fin 2], [Fin 3, Fin 4]] ! 0 ! 1 \<noteq> NaN \<and>
   [[Fin 1, NaN], [Fin 3, Fin 4]] \<noteq> [[Fin 1, Fin 2], [Fin 3, Fin 4]] \<and>
   mag_residual_sq [[Fin 1, Fin 2], [Fin 3, Fin 4]] (Some [[Fin 1, Fin 1], [Fin 1, Fin 1]]) =
     Inr ([[Fin 1, Fin 2], [Fin 3, Fin 4]], [Fin 5, Fin 25])"
  using mag_residual_sq_overwrites_argument
    [of "[[Fin 1, Fin 2], [Fin 3, Fin 4]]" "[[Fin 1, Fin 0], [Fin 1, Fin 1]]"]
  by (simp add: mag_residual_sq_def same_shape_def sum_sq_rows_def mask_entry_def nansum_def
      fsum_def fsq_def not_nan_def)

subsection \<open>The bootstrap\<close>

lemma scale_loop_funpow:
  "scale_loop n rs bp rf c s = ((scale_round rs bp rf c) ^^ n) s"
  by (induction n arbitrary: s) (simp_all add: funpow_swap1)

lemma nanmean_plain: "list_all not_nan xs \<Longrightarrow> nanmean xs = fmean xs"
  by (cases xs) (simp_all add: nanmean_def fmean_def list_all_iff fsum_def)

lemma fadd_no_neg_inf: "no_neg_inf x \<Longrightarrow> no_neg_inf y \<Longrightarrow> no_neg_inf (fadd x y)"
  by (cases x; cases y) simp_all

lemma fsum_no_neg_inf: "list_all no_neg_inf xs \<Longrightarrow> no_neg_inf (fsum xs)"
  by (induction xs) (simp_all add: fsum_def fadd_no_neg_inf)

lemma fsq_no_neg_inf: "not_nan (fsq x) \<Longrightarrow> no_neg_inf (fsq x)"
  by (cases x) (simp_all add: fsq_def not_nan_def)

lemma nansum_sq_not_nan: "not_nan (nansum (map fsq row))"
proof -
  have "list_all no_neg_inf (filter not_nan (map fsq row))"
    by (auto simp: list_all_iff fsq_no_neg_inf)
  then have "no_neg_inf (nansum (map fsq row))"
    unfolding nansum_def by (rule fsum_no_neg_inf)
  then show ?thesis by (cases "nansum (map fsq row)") (simp_all add: not_nan_def)
qed

lemma sum_sq_rows_not_nan: "list_all not_nan (sum_sq_rows r)"
  by (simp add: sum_sq_rows_def list_all_iff nansum_sq_not_nan)

lemma mag_residual_sq_not_nan:
  "mag_residual_sq r em = Inr (r', out) \<Longrightarrow> list_all not_nan out"
  by (auto simp: mag_residual_sq_def Let_def sum_sq_rows_not_nan split: option.splits if_splits)

lemma get_mag_residuals_sq_not_nan:
  "get_mag_residuals_sq d e em = Inr rs \<Longrightarrow> list_all not_nan rs"
  by (auto simp: get_mag_residuals_sq_def mag_residual_sq_not_nan split: sum.splits prod.splits)

lemma initalise_robust_pca_param_Inr:
  assumes "initalise_robust_pca_param svd data errors K seed bp rf rd c = Inr es"
  obtains vecs vals rs where
    "initalise_eigensystem svd (fst (mean_subtracted_data data errors)) = Inr (vecs, vals)"
    "get_mag_residuals_sq (take seed (fst (mean_subtracted_data data errors)))
       (map (take K) vecs) errors = Inr rs"
    "es = input_for_pca (snd (mean_subtracted_data data errors)) (take K vals)
       (map (take K) vecs) (initalise_scale_using_residuals_sq rs bp K rf c)
       (initalise_vqu rs (initalise_scale_using_residuals_sq rs bp K rf c) rd c)"
  using assms unfolding initalise_robust_pca_param_def
  by (auto simp: Let_def split: prod.splits sum.splits)

lemma initalise_robust_pca_param_eq:
  assumes "initalise_eigensystem svd (fst (mean_subtracted_data data errors)) = Inr (vecs, vals)"
    and "get_mag_residuals_sq (take seed (fst (mean_subtracted_data data errors)))
       (map (take K) vecs) errors = Inr rs"
  shows "initalise_robust_pca_param svd data errors K seed bp rf rd c =
     Inr (input_for_pca (snd (mean_subtracted_data data errors)) (take K vals)
       (map (take K) vecs) (initalise_scale_using_residuals_sq rs bp K rf c)
       (initalise_vqu rs (initalise_scale_using_residuals_sq rs bp K rf c) rd c))"
  using assms unfolding initalise_robust_pca_param_def
  by (auto simp: Let_def split: prod.splits sum.splits)

lemma take_centred:
  "take n (fst (mean_subtracted_data data errors)) =
   map (\<lambda>row. map2 fsub row (snd (mean_subtracted_data data errors))) (take n data)"
  by (simp add: mean_subtracted_data_def Let_def take_map)

lemma fmul_zero_or_nan: "s = Fin 0 \<or> s = NaN \<Longrightarrow> fmul s z = Fin 0 \<or> fmul s z = NaN"
  by (cases z) auto

lemma scale_round_degenerate:
  "s = Fin 0 \<or> s = NaN \<Longrightarrow>
   scale_round rs bp rf c s = Fin 0 \<or> scale_round rs bp rf c s = NaN"
  unfolding scale_round_def Let_def by (rule fmul_zero_or_nan)

lemma scale_loop_degenerate:
  "s = Fin 0 \<or> s = NaN \<Longrightarrow>
   scale_loop n rs bp rf c s = Fin 0 \<or> scale_loop n rs bp rf c s = NaN"
  by (induction n arbitrary: s) (simp_all add: scale_round_degenerate)

lemma fsum_zeros: "list_all (\<lambda>r. r = Fin 0) rs \<Longrightarrow> fsum rs = Fin 0"
  by (induction rs) (simp_all add: fsum_def)

lemma nanmean_zeros: "list_all (\<lambda>r. r = Fin 0) rs \<Longrightarrow> rs \<noteq> [] \<Longrightarrow> nanmean rs = Fin 0"
proof -
  assume z: "list_all (\<lambda>r. r = Fin 0) rs" and ne: "rs \<noteq> []"
  have "filter not_nan rs = rs"
    using z by (auto simp: filter_id_conv list_all_iff not_nan_def)
  then show ?thesis using fsum_zeros [OF z] ne by (simp add: nanmean_def)
qed


lemmas eval_defs = initalise_robust_pca_param_def mean_subtracted_data_def initalise_eigensystem_def
  get_eigen_system_def do_initial_SVD_def svd_orthogonal_columns_def column_norm_def identity_matrix_def
  get_mag_residuals_sq_def get_residual_def reconstruct_observation_def matmul_def matmul_by_transpose_def
  dot_def mag_residual_sq_def sum_sq_rows_def nansum_def nanmean_def fsum_def fsq_def fsub_def not_nan_def
  initalise_scale_using_residuals_sq_def scale_round_def initalise_vqu_def input_for_pca_def
  cauchy_weight_def same_shape_def mask_entry_def all_finite_def fmean_def

lemma bootstrap_example_seed3:
  "initalise_robust_pca_param svd_orthogonal_columns
     [[Fin 2, Fin 0], [Fin (- 2), Fin 0], [Fin 0, Fin 1], [Fin 0, Fin (- 1)]] None 1 3 (Fin (1 / 2))
     cauchy_weight cauchy_weight (Fin 1) =
     Inr \<lparr>es_U = [[Fin 1], [Fin 0]], es_m = [Fin 0, Fin 0], es_W = [Fin 2],
          es_vqu = [Fin (7 / 9), Fin (1 / 9), Fin 1], es_sig2 = Fin (1 / 2)\<rparr>"
  by (simp add: eval_defs Let_def upt_rec)

lemma bootstrap_example_changed_tail:
  "initalise_robust_pca_param svd_orthogonal_columns
     [[Fin 2, Fin 0], [Fin (- 2), Fin 0], [Fin 0, Fin 1], [Fin 0, Fin (- 2)]] None 1 3 (Fin (1 / 2))
     cauchy_weight cauchy_weight (Fin 1) =
     Inr \<lparr>es_U = [[Fin 1], [Fin 0]], es_m = [Fin 0, Fin (- (1 / 4))], es_W = [Fin 2],
          es_vqu = [Fin (1315197 / 1808282), Fin (6108453 / 28932512), Fin 1],
          es_sig2 = Fin (1053 / 1360)\<rparr>"
  by (simp add: eval_defs Let_def upt_rec)

lemma bootstrap_example_seed2:
  "initalise_robust_pca_param svd_orthogonal_columns
     [[Fin 2, Fin 0], [Fin (- 2), Fin 0], [Fin 0, Fin 1], [Fin 0, Fin (- 1)]] None 1 2 (Fin (1 / 2))
     cauchy_weight cauchy_weight (Fin 1) =
     Inr \<lparr>es_U = [[Fin 1], [Fin 0]], es_m = [Fin 0, Fin 0], es_W = [Fin 2],
          es_vqu = [NaN, NaN, Fin 1], es_sig2 = NaN\<rparr>"
  by (simp add: eval_defs Let_def upt_rec)

lemma bootstrap_example_swapped_tail:
  "initalise_robust_pca_param svd_orthogonal_columns
     [[Fin 2, Fin 0], [Fin (- 2), Fin 0], [Fin 0, Fin (- 1)], [Fin 0, Fin 1]] None 1 2 (Fin (1 / 2))
     cauchy_weight cauchy_weight (Fin 1) =
     Inr \<lparr>es_U = [[Fin 1], [Fin 0]], es_m = [Fin 0, Fin 0], es_W = [Fin 2],
          es_vqu = [NaN, NaN, Fin 1], es_sig2 = NaN\<rparr>"
  by (simp add: eval_defs Let_def upt_rec)

lemma bootstrap_example_one_feature:
  "initalise_robust_pca_param svd_orthogonal_columns
     [[Fin 0], [Fin 2]] None 1 2 (Fin (1 / 2))
     cauchy_weight cauchy_weight (Fin 1) =
     Inr \<lparr>es_U = [[Fin 1]], es_m = [Fin 1], es_W = [Fin 1], es_vqu = [NaN, NaN, Fin 1],
          es_sig2 = NaN\<rparr>"
  by (simp add: eval_defs Let_def upt_rec)

lemma scale_example:
  "initalise_scale_using_residuals_sq [Fin 0, Fin 0, Fin 1] (Fin (1 / 2)) 1 cauchy_weight (Fin 1) =
     Fin (1 / 2)"
  "scale_round [Fin 0, Fin 0, Fin 1] (Fin (1 / 2)) cauchy_weight (Fin 1) (Fin (1 / 3)) = Fin (1 / 2)"
  "fmean [Fin 0, Fin 0, Fin 1] = Fin (1 / 3)"
  "initalise_scale_using_residuals_sq [Fin 0, Fin 0] (Fin (1 / 2)) 1 cauchy_weight (Fin 1) = NaN"
  "nanmean [Fin 0, Fin 0] = Fin 0"
  by (simp_all add: initalise_scale_using_residuals_sq_def scale_round_def nanmean_def fmean_def
      fsum_def not_nan_def cauchy_weight_def)

text \<open>
  Claim C7. The robust scale estimator returns the value obtained from the mean of the
  seed squared residuals by exactly \<open>K\<close> update rounds, \<open>K\<close> being the configured
  number of eigenvectors to keep (\<open>amount_of_eigen\<close>), whatever the values are: there
  is no convergence test. A round evaluates the weighting function at
  \<open>t = residual\<^sup>2 / scale\<^sup>2\<close> and the shape parameter and replaces \<open>scale\<^sup>2\<close> by
  \<open>scale\<^sup>2 * (mean weight / breakdown_point)\<close>. The means are numpy's
  \<^verbatim>\<open>nanmean\<close>, which is the plain mean as soon as no entry is \<^verbatim>\<open>nan\<close>; the seed
  squared residuals that the bootstrap passes in never hold a \<^verbatim>\<open>nan\<close>, so there the
  start is their plain mean.
\<close>

theorem scale_estimator_fixed_rounds:
  "initalise_scale_using_residuals_sq rs bp K rf c = ((scale_round rs bp rf c) ^^ K) (nanmean rs) \<and>
   (list_all not_nan rs \<longrightarrow> nanmean rs = fmean rs) \<and>
   scale_round rs bp rf c s = fmul s (fdiv (nanmean (map (\<lambda>r. rf (fdiv r s) c) rs)) bp) \<and>
   (list_all not_nan (map (\<lambda>r. rf (fdiv r s) c) rs) \<longrightarrow>
      scale_round rs bp rf c s = fmul s (fdiv (fmean (map (\<lambda>r. rf (fdiv r s) c) rs)) bp)) \<and>
   (\<forall>es. initalise_robust_pca_param svd data errors K seed bp rf rd c = Inr es \<longrightarrow>
      (\<exists>seed_rs.
         get_mag_residuals_sq (take seed (fst (mean_subtracted_data data errors))) (es_U es) errors =
           Inr seed_rs \<and>
         es_sig2 es = ((scale_round seed_rs bp rf c) ^^ K) (fmean seed_rs)))"
proof (intro conjI allI impI)
  show "initalise_scale_using_residuals_sq rs bp K rf c =
      ((scale_round rs bp rf c) ^^ K) (nanmean rs)"
    by (simp add: initalise_scale_using_residuals_sq_def scale_loop_funpow)
  show "nanmean rs = fmean rs" if "list_all not_nan rs"
    using that by (rule nanmean_plain)
  show round: "scale_round rs bp rf c s = fmul s (fdiv (nanmean (map (\<lambda>r. rf (fdiv r s) c) rs)) bp)"
    by (simp add: scale_round_def Let_def comp_def)
  show "scale_round rs bp rf c s = fmul s (fdiv (fmean (map (\<lambda>r. rf (fdiv r s) c) rs)) bp)"
    if "list_all not_nan (map (\<lambda>r. rf (fdiv r s) c) rs)"
    using nanmean_plain [OF that] round by simp
next
  fix es
  assume "initalise_robust_pca_param svd data errors K seed bp rf rd c = Inr es"
  then obtain vecs vals seed_rs where
    res: "get_mag_residuals_sq (take seed (fst (mean_subtracted_data data errors)))
       (map (take K) vecs) errors = Inr seed_rs"
    and es: "es = input_for_pca (snd (mean_subtracted_data data errors)) (take K vals)
       (map (take K) vecs) (initalise_scale_using_residuals_sq seed_rs bp K rf c)
       (initalise_vqu seed_rs (initalise_scale_using_residuals_sq seed_rs bp K rf c) rd c)"
    by (rule initalise_robust_pca_param_Inr)
  have "nanmean seed_rs = fmean seed_rs"
    using get_mag_residuals_sq_not_nan [OF res] by (rule nanmean_plain)
  then have "es_sig2 es = ((scale_round seed_rs bp rf c) ^^ K) (fmean seed_rs)"
    using es by (simp add: input_for_pca_def initalise_scale_using_residuals_sq_def scale_loop_funpow)
  moreover have "es_U es = map (take K) vecs"
    using es by (simp add: input_for_pca_def)
  ultimately show "\<exists>seed_rs.
         get_mag_residuals_sq (take seed (fst (mean_subtracted_data data errors))) (es_U es) errors =
           Inr seed_rs \<and>
         es_sig2 es = ((scale_round seed_rs bp rf c) ^^ K) (fmean seed_rs)"
    using res by auto
qed

theorem scale_estimator_fixed_rounds_witness:
  "list_all not_nan [Fin 0, Fin 0, Fin 1] \<and>
   fmean [Fin 0, Fin 0, Fin 1] = Fin (1 / 3) \<and>
   initalise_scale_using_residuals_sq [Fin 0, Fin 0, Fin 1] (Fin (1 / 2)) 1 cauchy_weight (Fin 1) =
     Fin (1 / 2) \<and>
   scale_round [Fin 0, Fin 0, Fin 1] (Fin (1 / 2)) cauchy_weight (Fin 1) (Fin (1 / 3)) = Fin (1 / 2) \<and>
   initalise_robust_pca_param svd_orthogonal_columns
     [[Fin 2, Fin 0], [Fin (- 2), Fin 0], [Fin 0, Fin 1], [Fin 0, Fin (- 1)]] None 1 3 (Fin (1 / 2))
     cauchy_weight cauchy_weight (Fin 1) =
     Inr \<lparr>es_U = [[Fin 1], [Fin 0]], es_m = [Fin 0, Fin 0], es_W = [Fin 2],
          es_vqu = [Fin (7 / 9), Fin (1 / 9), Fin 1], es_sig2 = Fin (1 / 2)\<rparr>"
  using scale_estimator_fixed_rounds [of "[Fin 0, Fin 0, Fin 1]" "Fin (1 / 2)" 1 cauchy_weight
      "Fin 1" "Fin (1 / 3)" svd_orthogonal_columns
      "[[Fin 2, Fin 0], [Fin (- 2), Fin 0], [Fin 0, Fin 1], [Fin 0, Fin (- 1)]]" None 3 cauchy_weight]
    bootstrap_example_seed3 scale_example
  by (simp add: not_nan_def)

text \<open>
  Claim C1, as the specification states it: the eigen-basis, the mean, the scale and the
  running statistics are derived from the first \<open>seed_size\<close> observations only. It
  fails: two datasets with the same first three observations and a different fourth
  one give different means, scales and running statistics at \<open>seed_size = 3\<close>.
\<close>

theorem bootstrap_uses_whole_dataset:
  "take 3 [[Fin 2, Fin 0], [Fin (- 2), Fin 0], [Fin 0, Fin 1], [Fin 0, Fin (- 1)]] =
   take 3 [[Fin 2, Fin 0], [Fin (- 2), Fin 0], [Fin 0, Fin 1], [Fin 0, Fin (- 2)]] \<and>
   initalise_robust_pca_param svd_orthogonal_columns
     [[Fin 2, Fin 0], [Fin (- 2), Fin 0], [Fin 0, Fin 1], [Fin 0, Fin (- 1)]] None 1 3 (Fin (1 / 2))
     cauchy_weight cauchy_weight (Fin 1) =
     Inr \<lparr>es_U = [[Fin 1], [Fin 0]], es_m = [Fin 0, Fin 0], es_W = [Fin 2],
          es_vqu = [Fin (7 / 9), Fin (1 / 9), Fin 1], es_sig2 = Fin (1 / 2)\<rparr> \<and>
   initalise_robust_pca_param svd_orthogonal_columns
     [[Fin 2, Fin 0], [Fin (- 2), Fin 0], [Fin 0, Fin 1], [Fin 0, Fin (- 2)]] None 1 3 (Fin (1 / 2))
     cauchy_weight cauchy_weight (Fin 1) =
     Inr \<lparr>es_U = [[Fin 1], [Fin 0]], es_m = [Fin 0, Fin (- (1 / 4))], es_W = [Fin 2],
          es_vqu = [Fin (1315197 / 1808282), Fin (6108453 / 28932512), Fin 1],
          es_sig2 = Fin (1053 / 1360)\<rparr>"
  using bootstrap_example_seed3 bootstrap_example_changed_tail by simp

text \<open>
  Claim C1, amended. The mean vector is the column mean of the whole dataset, and the
  eigen-basis is decomposed from the whole centred dataset and cut to \<open>K\<close> components.
  Only the squared residuals come from the first \<open>seed_size\<close> centred observations;
  the scale and the running statistics are computed from these residuals. Hence two
  datasets with the same first \<open>seed_size\<close> observations, the same column means and
  the same decomposition give the same bootstrap result.
\<close>

theorem bootstrap_data_dependence:
  "(\<forall>es. initalise_robust_pca_param svd data errors K seed bp rf rd c = Inr es \<longrightarrow>
      es_m es = map nanmean (transpose data) \<and>
      (\<exists>vecs vals.
         initalise_eigensystem svd (map (\<lambda>row. map2 fsub row (es_m es)) data) = Inr (vecs, vals) \<and>
         es_U es = map (take K) vecs \<and> es_W es = take K vals) \<and>
      (\<exists>seed_rs.
         get_mag_residuals_sq (map (\<lambda>row. map2 fsub row (es_m es)) (take seed data))
           (es_U es) errors = Inr seed_rs \<and>
         es_sig2 es = initalise_scale_using_residuals_sq seed_rs bp K rf c \<and>
         es_vqu es = initalise_vqu seed_rs (es_sig2 es) rd c)) \<and>
   (take seed data = take seed data' \<and>
    map nanmean (transpose data) = map nanmean (transpose data') \<and>
    initalise_eigensystem svd (fst (mean_subtracted_data data errors)) =
      initalise_eigensystem svd (fst (mean_subtracted_data data' errors)) \<longrightarrow>
    initalise_robust_pca_param svd data errors K seed bp rf rd c =
      initalise_robust_pca_param svd data' errors K seed bp rf rd c)"
proof (intro conjI allI impI)
  fix es
  assume "initalise_robust_pca_param svd data errors K seed bp rf rd c = Inr es"
  then obtain vecs vals rs where
    eig: "initalise_eigensystem svd (fst (mean_subtracted_data data errors)) = Inr (vecs, vals)"
    and res: "get_mag_residuals_sq (take seed (fst (mean_subtracted_data data errors)))
       (map (take K) vecs) errors = Inr rs"
    and es: "es = input_for_pca (snd (mean_subtracted_data data errors)) (take K vals)
       (map (take K) vecs) (initalise_scale_using_residuals_sq rs bp K rf c)
       (initalise_vqu rs (initalise_scale_using_residuals_sq rs bp K rf c) rd c)"
    by (rule initalise_robust_pca_param_Inr)
  have U: "es_U es = map (take K) vecs" and W: "es_W es = take K vals"
    and mm: "es_m es = snd (mean_subtracted_data data errors)"
    and sig: "es_sig2 es = initalise_scale_using_residuals_sq rs bp K rf c"
    and vqu: "es_vqu es = initalise_vqu rs (initalise_scale_using_residuals_sq rs bp K rf c) rd c"
    by (simp_all add: es input_for_pca_def)
  show m: "es_m es = map nanmean (transpose data)"
    unfolding mm by (simp add: mean_subtracted_data_def Let_def)
  have centred: "fst (mean_subtracted_data data errors) = map (\<lambda>row. map2 fsub row (es_m es)) data"
    unfolding mm by (simp add: mean_subtracted_data_def Let_def)
  have "initalise_eigensystem svd (map (\<lambda>row. map2 fsub row (es_m es)) data) = Inr (vecs, vals)"
    using eig unfolding centred .
  then show "\<exists>vecs vals.
         initalise_eigensystem svd (map (\<lambda>row. map2 fsub row (es_m es)) data) = Inr (vecs, vals) \<and>
         es_U es = map (take K) vecs \<and> es_W es = take K vals"
    using U W by blast
  have "get_mag_residuals_sq (map (\<lambda>row. map2 fsub row (es_m es)) (take seed data))
           (es_U es) errors = Inr rs"
    using res unfolding take_centred U mm .
  then show "\<exists>seed_rs.
         get_mag_residuals_sq (map (\<lambda>row. map2 fsub row (es_m es)) (take seed data))
           (es_U es) errors = Inr seed_rs \<and>
         es_sig2 es = initalise_scale_using_residuals_sq seed_rs bp K rf c \<and>
         es_vqu es = initalise_vqu seed_rs (es_sig2 es) rd c"
    using sig vqu by auto
next
  assume same: "take seed data = take seed data' \<and>
    map nanmean (transpose data) = map nanmean (transpose data') \<and>
    initalise_eigensystem svd (fst (mean_subtracted_data data errors)) =
      initalise_eigensystem svd (fst (mean_subtracted_data data' errors))"
  have mean: "snd (mean_subtracted_data data errors) = snd (mean_subtracted_data data' errors)"
    using same by (simp add: mean_subtracted_data_def Let_def)
  have seed: "take seed (fst (mean_subtracted_data data errors)) =
      take seed (fst (mean_subtracted_data data' errors))"
    using same mean by (simp add: take_centred)
  show "initalise_robust_pca_param svd data errors K seed bp rf rd c =
      initalise_robust_pca_param svd data' errors K seed bp rf rd c"
    using same unfolding initalise_robust_pca_param_def Let_def split_beta mean seed
    by simp
qed

theorem bootstrap_data_dependence_witness:
  "take 2 [[Fin 2, Fin 0], [Fin (- 2), Fin 0], [Fin 0, Fin 1], [Fin 0, Fin (- 1)]] =
   take 2 [[Fin 2, Fin 0], [Fin (- 2), Fin 0], [Fin 0, Fin (- 1)], [Fin 0, Fin 1]] \<and>
   initalise_robust_pca_param svd_orthogonal_columns
     [[Fin 2, Fin 0], [Fin (- 2), Fin 0], [Fin 0, Fin 1], [Fin 0, Fin (- 1)]] None 1 2 (Fin (1 / 2))
     cauchy_weight cauchy_weight (Fin 1) =
   initalise_robust_pca_param svd_orthogonal_columns
     [[Fin 2, Fin 0], [Fin (- 2), Fin 0], [Fin 0, Fin (- 1)], [Fin 0, Fin 1]] None 1 2 (Fin (1 / 2))
     cauchy_weight cauchy_weight (Fin 1) \<and>
   initalise_robust_pca_param svd_orthogonal_columns
     [[Fin 2, Fin 0], [Fin (- 2), Fin 0], [Fin 0, Fin 1], [Fin 0, Fin (- 1)]] None 1 3 (Fin (1 / 2))
     cauchy_weight cauchy_weight (Fin 1) =
     Inr \<lparr>es_U = [[Fin 1], [Fin 0]], es_m = [Fin 0, Fin 0], es_W = [Fin 2],
          es_vqu = [Fin (7 / 9), Fin (1 / 9), Fin 1], es_sig2 = Fin (1 / 2)\<rparr> \<and>
   map nanmean (transpose [[Fin 2, Fin 0], [Fin (- 2), Fin 0], [Fin 0, Fin 1], [Fin 0, Fin (- 1)]]) = [Fin 0, Fin 0]"
  using bootstrap_data_dependence [of svd_orthogonal_columns
      "[[Fin 2, Fin 0], [Fin (- 2), Fin 0], [Fin 0, Fin 1], [Fin 0, Fin (- 1)]]" None 1 3 "Fin (1 / 2)"
      cauchy_weight cauchy_weight "Fin 1"
      "[[Fin 2, Fin 0], [Fin (- 2), Fin 0], [Fin 0, Fin (- 1)], [Fin 0, Fin 1]]"]
    bootstrap_example_seed3 bootstrap_example_seed2 bootstrap_example_swapped_tail
  by simp

text \<open>
  Claim C5, as the specification states it: a scale that reaches zero or an undefined
  value during bootstrap raises a distinct fatal error. It fails: with one feature and
  one kept eigenvector all seed residuals are zero, the scale starts at zero, the first
  round divides zero by zero, and the bootstrap returns a state whose scale is
  \<^verbatim>\<open>nan\<close>.
\<close>

theorem degenerate_scale_not_raised:
  "nanmean [Fin 0, Fin 0] = Fin 0 \<and>
   initalise_scale_using_residuals_sq [Fin 0, Fin 0] (Fin (1 / 2)) 1 cauchy_weight (Fin 1) = NaN \<and>
   initalise_robust_pca_param svd_orthogonal_columns
     [[Fin 0], [Fin 2]] None 1 2 (Fin (1 / 2))
     cauchy_weight cauchy_weight (Fin 1) =
     Inr \<lparr>es_U = [[Fin 1]], es_m = [Fin 1], es_W = [Fin 1], es_vqu = [NaN, NaN, Fin 1],
          es_sig2 = NaN\<rparr>"
  using bootstrap_example_one_feature scale_example by simp

text \<open>
  Claim C5, amended. The bootstrap has no check on the scale. Every round of the
  estimator divides each seed residual by the current scale, \<open>t = residual / scale\<close>,
  and so do the running statistics with the returned scale; for a scale that is zero or
  \<^verbatim>\<open>nan\<close> no such ratio is a finite number. Once the scale is zero or \<^verbatim>\<open>nan\<close> it
  is zero or \<^verbatim>\<open>nan\<close> after every number of rounds and is returned as the estimate,
  which happens in particular when all seed residuals are zero; whenever the
  decomposition and the residual computation succeed, the bootstrap returns a state
  with that estimate, whatever its value, and with the running statistics computed from
  the ratios to it.
\<close>

theorem degenerate_scale_is_returned:
  "(nanmean rs = Fin 0 \<or> nanmean rs = NaN \<longrightarrow>
      (\<forall>n. ((scale_round rs bp rf c) ^^ n) (nanmean rs) = Fin 0 \<or>
           ((scale_round rs bp rf c) ^^ n) (nanmean rs) = NaN) \<and>
      (initalise_scale_using_residuals_sq rs bp K rf c = Fin 0 \<or>
       initalise_scale_using_residuals_sq rs bp K rf c = NaN)) \<and>
   scale_round rs bp rf c s =
     fmul s (fdiv (nanmean (map (\<lambda>r. rf (fdiv r s) c) rs)) bp) \<and>
   (s = Fin 0 \<or> s = NaN \<longrightarrow> \<not> is_fin (fdiv r s)) \<and>
   (list_all (\<lambda>r. r = Fin 0) rs \<and> rs \<noteq> [] \<longrightarrow> nanmean rs = Fin 0) \<and>
   (\<forall>vecs vals seed_rs.
      initalise_eigensystem svd (fst (mean_subtracted_data data errors)) = Inr (vecs, vals) \<and>
      get_mag_residuals_sq (take seed (fst (mean_subtracted_data data errors)))
        (map (take K) vecs) errors = Inr seed_rs \<longrightarrow>
      (\<exists>es. initalise_robust_pca_param svd data errors K seed bp rf rd c = Inr es \<and>
            es_sig2 es = initalise_scale_using_residuals_sq seed_rs bp K rf c \<and>
            es_vqu es =
              [nanmean (map (\<lambda>r. rd (fdiv r (es_sig2 es)) c) seed_rs),
               nanmean (map2 fmul (map (\<lambda>r. rd (fdiv r (es_sig2 es)) c) seed_rs) seed_rs),
               nanmean (map (\<lambda>r. Fin 1) seed_rs)]))"
proof (intro conjI allI impI)
  show "((scale_round rs bp rf c) ^^ n) (nanmean rs) = Fin 0 \<or>
      ((scale_round rs bp rf c) ^^ n) (nanmean rs) = NaN"
    if "nanmean rs = Fin 0 \<or> nanmean rs = NaN" for n
    using scale_loop_degenerate [OF that, of n rs bp rf c] by (simp add: scale_loop_funpow)
  show "initalise_scale_using_residuals_sq rs bp K rf c = Fin 0 \<or>
      initalise_scale_using_residuals_sq rs bp K rf c = NaN"
    if "nanmean rs = Fin 0 \<or> nanmean rs = NaN"
    unfolding initalise_scale_using_residuals_sq_def using that by (rule scale_loop_degenerate)
  show "scale_round rs bp rf c s =
      fmul s (fdiv (nanmean (map (\<lambda>r. rf (fdiv r s) c) rs)) bp)"
    by (simp add: scale_round_def Let_def comp_def)
  show "\<not> is_fin (fdiv r s)" if "s = Fin 0 \<or> s = NaN"
    using that by (cases r) (auto split: if_splits)
  show "nanmean rs = Fin 0" if "list_all (\<lambda>r. r = Fin 0) rs \<and> rs \<noteq> []"
    using that by (simp add: nanmean_zeros)
next
  fix vecs vals seed_rs
  assume a: "initalise_eigensystem svd (fst (mean_subtracted_data data errors)) = Inr (vecs, vals) \<and>
      get_mag_residuals_sq (take seed (fst (mean_subtracted_data data errors)))
        (map (take K) vecs) errors = Inr seed_rs"
  show "\<exists>es. initalise_robust_pca_param svd data errors K seed bp rf rd c = Inr es \<and>
            es_sig2 es = initalise_scale_using_residuals_sq seed_rs bp K rf c \<and>
            es_vqu es =
              [nanmean (map (\<lambda>r. rd (fdiv r (es_sig2 es)) c) seed_rs),
               nanmean (map2 fmul (map (\<lambda>r. rd (fdiv r (es_sig2 es)) c) seed_rs) seed_rs),
               nanmean (map (\<lambda>r. Fin 1) seed_rs)]"
    using initalise_robust_pca_param_eq [of svd data errors vecs vals seed K seed_rs bp rf rd c] a
    by (simp add: input_for_pca_def initalise_vqu_def Let_def comp_def)
qed

theorem degenerate_scale_is_returned_witness:
  "list_all (\<lambda>r. r = Fin 0) [Fin 0, Fin 0] \<and> [Fin 0, Fin 0] \<noteq> ([] :: vector) \<and>
   nanmean [Fin 0, Fin 0] = Fin 0 \<and>
   initalise_scale_using_residuals_sq [Fin 0, Fin 0] (Fin (1 / 2)) 1 cauchy_weight (Fin 1) = NaN \<and>
   \<not> is_fin (fdiv (Fin 0) NaN) \<and>
   (\<exists>es. initalise_robust_pca_param svd_orthogonal_columns
     [[Fin 0], [Fin 2]] None 1 2 (Fin (1 / 2))
     cauchy_weight cauchy_weight (Fin 1) = Inr es \<and> es_sig2 es = NaN \<and>
     es_vqu es = [NaN, NaN, Fin 1])"
  using degenerate_scale_is_returned [of "[Fin 0, Fin 0]" "Fin (1 / 2)" cauchy_weight "Fin 1" 1
      NaN "Fin 0" svd_orthogonal_columns "[[Fin 0], [Fin 2]]" None 2 cauchy_weight]
    bootstrap_example_one_feature scale_example
  by simp




subsection \<open>The randomiser\<close>

lemma take_rows_Inr:
  "take_rows a idx = Inr b \<Longrightarrow>
     length b = length idx \<and> (\<forall>i<length idx. idx ! i < length a \<and> b ! i = a ! (idx ! i))"
  by (auto simp: take_rows_def list_all_iff split: if_splits)

lemma take_rows_ok:
  "\<forall>i\<in>set idx. i < length a \<Longrightarrow> take_rows a idx = Inr (map (\<lambda>i. a ! i) idx)"
  by (simp add: take_rows_def list_all_iff)

lemma randomise_data_order_Inr:
  assumes sh: "shuffle g [0..<length data] = (perm, g')"
    and ok: "randomise_data_order shuffle data errors g = Inr (data', errors', g'')"
  shows "g'' = g'" and "take_rows data perm = Inr data'"
    and "\<And>em. errors = ErrorsArray em \<Longrightarrow> \<exists>em'. errors' = ErrorsArray em' \<and> take_rows em perm = Inr em'"
    and "(\<forall>em. errors \<noteq> ErrorsArray em) \<Longrightarrow> errors' = errors"
  using ok unfolding randomise_data_order_def Let_def sh
  by (auto split: sum.splits error_arg.splits if_splits)

text \<open>
  Claim C9. The randomiser shuffles the index array \<open>[0..<N]\<close> once and indexes the
  observations and, when there is a mask array, the mask with the result \<open>perm\<close>: when
  it returns, row \<open>i\<close> of the data is row \<open>perm ! i\<close> of the input and row \<open>i\<close> of
  the mask is row \<open>perm ! i\<close> of the input mask, the same index for both; without a
  mask array the \<^verbatim>\<open>errors\<close> argument is returned as it is. When the shuffle returns
  a permutation of the indices, the randomiser returns and every input row appears in
  the output. That the permutation is uniformly distributed is a property of
  \<^verbatim>\<open>np.random.shuffle\<close>, a parameter here.
\<close>

theorem randomise_data_order_pairing:
  assumes "shuffle g [0..<length data] = (perm, g')"
  shows
    "(\<forall>data' errors' g''. randomise_data_order shuffle data errors g = Inr (data', errors', g'') \<longrightarrow>
        g'' = g' \<and> length data' = length perm \<and>
        (\<forall>i<length data'. perm ! i < length data \<and> data' ! i = data ! (perm ! i)) \<and>
        (\<forall>em. errors = ErrorsArray em \<longrightarrow>
           (\<exists>em'. errors' = ErrorsArray em' \<and> length em' = length perm \<and>
              (\<forall>i<length data'. perm ! i < length em \<and> em' ! i = em ! (perm ! i)))) \<and>
        ((\<forall>em. errors \<noteq> ErrorsArray em) \<longrightarrow> errors' = errors)) \<and>
     (is_permutation_of_indices perm (length data) \<and> errors_long_enough errors (length data) \<longrightarrow>
        (\<exists>data' errors'. randomise_data_order shuffle data errors g = Inr (data', errors', g') \<and>
           length data' = length data \<and>
           (\<forall>j<length data. \<exists>i<length data'. perm ! i = j \<and> data' ! i = data ! j)))"
proof (intro conjI allI impI)
  fix data' errors' g''
  assume ok: "randomise_data_order shuffle data errors g = Inr (data', errors', g'')"
  note facts = randomise_data_order_Inr [OF assms ok]
  note rows = take_rows_Inr [OF facts(2)]
  show "g'' = g'" by (rule facts(1))
  show len: "length data' = length perm" using rows by simp
  show "perm ! i < length data" if "i < length data'" for i
    using rows that by simp
  show "data' ! i = data ! (perm ! i)" if "i < length data'" for i
    using rows that by simp
  show "errors' = errors" if "\<forall>em. errors \<noteq> ErrorsArray em"
    using facts(4) that by simp
  show "\<exists>em'. errors' = ErrorsArray em' \<and> length em' = length perm \<and>
          (\<forall>i<length data'. perm ! i < length em \<and> em' ! i = em ! (perm ! i))"
    if "errors = ErrorsArray em" for em
  proof -
    from facts(3) [OF that] obtain em' where em': "errors' = ErrorsArray em'"
      "take_rows em perm = Inr em'" by blast
    show ?thesis using em'(1) take_rows_Inr [OF em'(2)] len by auto
  qed
next
  assume a: "is_permutation_of_indices perm (length data) \<and> errors_long_enough errors (length data)"
  then have dist: "distinct perm" and set: "set perm = {0..<length data}"
    by (simp_all add: is_permutation_of_indices_def)
  have len: "length perm = length data"
    using dist set by (metis card_atLeastLessThan diff_zero distinct_card)
  have rows: "take_rows data perm = Inr (map (\<lambda>i. data ! i) perm)"
    using set by (intro take_rows_ok) auto
  have run: "\<exists>errors'. randomise_data_order shuffle data errors g =
      Inr (map (\<lambda>i. data ! i) perm, errors', g')"
  proof (cases errors)
    case ErrorsNone
    then show ?thesis by (simp add: randomise_data_order_def assms rows)
  next
    case (ErrorsNoneList m)
    then show ?thesis using a by (simp add: randomise_data_order_def assms rows errors_long_enough_def)
  next
    case (ErrorsArray em)
    then have "em \<noteq> []" and "length data \<le> length em"
      using a by (simp_all add: errors_long_enough_def)
    then have "take_rows em perm = Inr (map (\<lambda>i. em ! i) perm)"
      using set by (intro take_rows_ok) auto
    then show ?thesis using ErrorsArray \<open>em \<noteq> []\<close>
      by (simp add: randomise_data_order_def assms rows)
  qed
  have every: "\<exists>i<length perm. perm ! i = j \<and> map (\<lambda>i. data ! i) perm ! i = data ! j"
    if "j < length data" for j
  proof -
    have "j \<in> set perm" using set that by simp
    then obtain i where "i < length perm" "perm ! i = j" by (auto simp: in_set_conv_nth)
    then show ?thesis by auto
  qed
  show "\<exists>data' errors'. randomise_data_order shuffle data errors g = Inr (data', errors', g') \<and>
           length data' = length data \<and>
           (\<forall>j<length data. \<exists>i<length data'. perm ! i = j \<and> data' ! i = data ! j)"
    using run every len by auto
qed

subsection \<open>The update loop\<close>

lemma chained_snoc:
  "chained s cs t \<Longrightarrow> uc_state c = t \<Longrightarrow> chained s (cs @ [c]) (uc_next c)"
  by (induction cs arbitrary: s) auto

lemma track_first:
  assumes "well_formed w es" and "0 < save"
  shows "track_eigensystem_updates 0 es tracked (int save) =
     Inr (\<lparr>tr_W = (replicate save (replicate w (Fin 0)))[0 := es_W es],
           tr_sig2 = (replicate save (Fin 0))[0 := es_sig2 es],
           tr_vqu = (replicate save (Fin 0))[0 := hd (es_vqu es)]\<rparr>, 1)"
proof -
  obtain v rest where v: "es_vqu es = v # rest"
    using assms(1) by (cases "es_vqu es") (auto simp: well_formed_def)
  have w: "length (es_W es) = w" using assms(1) by (simp add: well_formed_def)
  show ?thesis
    using assms(2)
    by (simp add: track_eigensystem_updates_def initialise_tracked_eigen_updates_def
        store_row_def store_scalar_def v w)
qed

lemma track_later:
  assumes "well_formed w es" and "buffer_shape save w t" and "counter < save" and "0 < counter"
  shows "track_eigensystem_updates counter es (Some t) (int save) =
     Inr (\<lparr>tr_W = (tr_W t)[counter := es_W es],
           tr_sig2 = (tr_sig2 t)[counter := es_sig2 es],
           tr_vqu = (tr_vqu t)[counter := hd (es_vqu es)]\<rparr>, counter + 1)"
proof -
  obtain v rest where v: "es_vqu es = v # rest"
    using assms(1) by (cases "es_vqu es") (auto simp: well_formed_def)
  have w: "length (es_W es) = w" using assms(1) by (simp add: well_formed_def)
  have row: "length (tr_W t ! counter) = w"
    using assms(2,3) by (simp add: buffer_shape_def list_all_length)
  show ?thesis
    using assms(2,3,4) row
    by (simp add: track_eigensystem_updates_def store_row_def store_scalar_def v w
        buffer_shape_def)
qed

lemma error_array_at_cover:
  "errors_cover errors n \<Longrightarrow> sp < n \<Longrightarrow> error_array_at errors sp = Inr (mask_row_at errors sp)"
  by (cases errors) (simp_all add: errors_cover_def error_array_at_def mask_row_at_def)

lemma buffer_shape_update:
  assumes "buffer_shape save w t" and "length v = w"
  shows "buffer_shape save w
     \<lparr>tr_W = (tr_W t)[i := v], tr_sig2 = (tr_sig2 t)[i := x], tr_vqu = (tr_vqu t)[i := y]\<rparr>"
proof -
  have "length ((tr_W t)[i := v] ! n) = w" if "n < length (tr_W t)" for n
    using that assms by (cases "i = n") (auto simp: buffer_shape_def list_all_length)
  then show ?thesis
    using assms(1) by (simp add: buffer_shape_def list_all_length)
qed

lemma buffer_shape_fresh:
  "buffer_shape save w
     \<lparr>tr_W = replicate save (replicate w (Fin 0)), tr_sig2 = replicate save (Fin 0),
      tr_vqu = replicate save (Fin 0)\<rparr>"
  by (simp add: buffer_shape_def list_all_length)

lemma rows_recorded_snoc:
  assumes "rows_recorded t calls" and "length calls < length (tr_W t)"
    and "length calls < length (tr_sig2 t)" and "length calls < length (tr_vqu t)"
    and "uc_state c = es"
  shows "rows_recorded
     \<lparr>tr_W = (tr_W t)[length calls := es_W es], tr_sig2 = (tr_sig2 t)[length calls := es_sig2 es],
      tr_vqu = (tr_vqu t)[length calls := hd (es_vqu es)]\<rparr> (calls @ [c])"
  unfolding rows_recorded_def
proof (intro allI impI)
  fix i
  assume "i < length (calls @ [c])"
  then consider "i < length calls" | "i = length calls" by fastforce
  then show "tr_W \<lparr>tr_W = (tr_W t)[length calls := es_W es],
            tr_sig2 = (tr_sig2 t)[length calls := es_sig2 es],
            tr_vqu = (tr_vqu t)[length calls := hd (es_vqu es)]\<rparr> ! i =
        es_W (uc_state ((calls @ [c]) ! i)) \<and>
        tr_sig2 \<lparr>tr_W = (tr_W t)[length calls := es_W es],
            tr_sig2 = (tr_sig2 t)[length calls := es_sig2 es],
            tr_vqu = (tr_vqu t)[length calls := hd (es_vqu es)]\<rparr> ! i =
        es_sig2 (uc_state ((calls @ [c]) ! i)) \<and>
        tr_vqu \<lparr>tr_W = (tr_W t)[length calls := es_W es],
            tr_sig2 = (tr_sig2 t)[length calls := es_sig2 es],
            tr_vqu = (tr_vqu t)[length calls := hd (es_vqu es)]\<rparr> ! i =
        hd (es_vqu (uc_state ((calls @ [c]) ! i)))"
  proof cases
    case 1
    then show ?thesis
      using assms(1) by (simp add: rows_recorded_def nth_append)
  next
    case 2
    then show ?thesis
      using assms(2,3,4,5) by (simp add: nth_append)
  qed
qed

lemma rows_untouched_fresh:
  "rows_untouched w
     \<lparr>tr_W = replicate save (replicate w (Fin 0)), tr_sig2 = replicate save (Fin 0),
      tr_vqu = replicate save (Fin 0)\<rparr> n"
  by (simp add: rows_untouched_def)

lemma rows_untouched_update:
  "rows_untouched w t n \<Longrightarrow>
   rows_untouched w
     \<lparr>tr_W = (tr_W t)[n := v], tr_sig2 = (tr_sig2 t)[n := x], tr_vqu = (tr_vqu t)[n := y]\<rparr>
     (Suc n)"
  by (simp add: rows_untouched_def)

lemma track_step:
  assumes inv: "loop_inv f alpha delta c_sq save w es0 st"
    and room: "length (ls_calls st) < save"
  shows "\<exists>t'. track_eigensystem_updates (ls_counter st) (ls_eigen st) (ls_tracked st) (int save) =
            Inr (t', Suc (length (ls_calls st))) \<and>
          buffer_shape save w t' \<and>
          rows_untouched w t' (Suc (length (ls_calls st))) \<and>
          (\<forall>c. uc_state c = ls_eigen st \<longrightarrow> rows_recorded t' (ls_calls st @ [c]))"
proof -
  have wf: "well_formed w (ls_eigen st)" and cnt: "ls_counter st = length (ls_calls st)"
    using inv by (simp_all add: loop_inv_def)
  have w: "length (es_W (ls_eigen st)) = w" using wf by (simp add: well_formed_def)
  show ?thesis
  proof (cases "ls_calls st = []")
    case True
    let ?fresh = "\<lparr>tr_W = replicate save (replicate w (Fin 0)), tr_sig2 = replicate save (Fin 0),
      tr_vqu = replicate save (Fin 0)\<rparr>"
    let ?t = "\<lparr>tr_W = (tr_W ?fresh)[0 := es_W (ls_eigen st)],
           tr_sig2 = (tr_sig2 ?fresh)[0 := es_sig2 (ls_eigen st)],
           tr_vqu = (tr_vqu ?fresh)[0 := hd (es_vqu (ls_eigen st))]\<rparr>"
    have "track_eigensystem_updates (ls_counter st) (ls_eigen st) (ls_tracked st) (int save) =
        Inr (?t, Suc (length (ls_calls st)))"
      using track_first [OF wf, of save "ls_tracked st"] room True cnt by simp
    moreover have "buffer_shape save w ?t"
      using buffer_shape_update [OF buffer_shape_fresh w] .
    moreover have "rows_untouched w ?t (Suc (length (ls_calls st)))"
      using rows_untouched_update [OF rows_untouched_fresh, of w save 0] True by simp
    moreover have "rows_recorded ?t (ls_calls st @ [c])" if "uc_state c = ls_eigen st" for c
      using rows_recorded_snoc [of ?fresh "[]" c "ls_eigen st"] that room True
      by (simp add: rows_recorded_def)
    ultimately show ?thesis by blast
  next
    case False
    then obtain t where t: "ls_tracked st = Some t" "buffer_shape save w t"
      "rows_recorded t (ls_calls st)" "rows_untouched w t (length (ls_calls st))"
      using inv by (auto simp: loop_inv_def)
    let ?n = "length (ls_calls st)"
    let ?t = "\<lparr>tr_W = (tr_W t)[?n := es_W (ls_eigen st)],
           tr_sig2 = (tr_sig2 t)[?n := es_sig2 (ls_eigen st)],
           tr_vqu = (tr_vqu t)[?n := hd (es_vqu (ls_eigen st))]\<rparr>"
    have pos: "0 < ?n" using False by simp
    have "track_eigensystem_updates (ls_counter st) (ls_eigen st) (ls_tracked st) (int save) =
        Inr (?t, Suc ?n)"
      using track_later [OF wf t(2) room pos] cnt t(1) by simp
    moreover have "buffer_shape save w ?t"
      using buffer_shape_update [OF t(2) w] .
    moreover have "rows_untouched w ?t (Suc ?n)"
      using rows_untouched_update [OF t(4)] .
    moreover have "rows_recorded ?t (ls_calls st @ [c])" if "uc_state c = ls_eigen st" for c
      using rows_recorded_snoc [OF t(3) _ _ _ that] t(2) room
      by (simp add: buffer_shape_def)
    ultimately show ?thesis by blast
  qed
qed

lemma process_spectrum_step:
  assumes inv: "loop_inv f alpha delta c_sq save w es0 st"
    and keep: "updater_keeps_shape w f"
    and room: "length (ls_calls st) < save"
    and sp: "sp < length data" "sp < n" and cover: "errors_cover errors n"
  shows "\<exists>st' c. process_spectrum f data errors alpha delta c_sq (int save) k sp st = Inr st' \<and>
          loop_inv f alpha delta c_sq save w es0 st' \<and>
          ls_calls st' = ls_calls st @ [c] \<and>
          call_key c = (k, sp, data ! sp, mask_row_at errors sp)"
proof -
  from track_step [OF inv room] obtain t' where
    track: "track_eigensystem_updates (ls_counter st) (ls_eigen st) (ls_tracked st) (int save) =
            Inr (t', Suc (length (ls_calls st)))"
    and shape: "buffer_shape save w t'"
    and rest: "rows_untouched w t' (Suc (length (ls_calls st)))"
    and rows: "\<And>c. uc_state c = ls_eigen st \<Longrightarrow> rows_recorded t' (ls_calls st @ [c])"
    by blast
  have wf: "well_formed w (ls_eigen st)" and cnt: "ls_counter st = length (ls_calls st)"
    and ch: "chained es0 (ls_calls st) (ls_eigen st)"
    and old: "list_all (\<lambda>c. uc_next c = f (uc_state c) (uc_spectrum c) alpha (uc_error_array c) delta c_sq \<and>
                    uc_rows c = save) (ls_calls st)"
    and alloc: "if ls_calls st = [] then ls_allocations st = 0 else ls_allocations st = 1"
    using inv by (auto simp: loop_inv_def split: if_splits)
  define nxt where "nxt = f (ls_eigen st) (data ! sp) alpha (mask_row_at errors sp) delta c_sq"
  define c where "c = \<lparr>uc_pass = k, uc_index = sp, uc_state = ls_eigen st,
      uc_spectrum = data ! sp, uc_error_array = mask_row_at errors sp, uc_next = nxt,
      uc_rows = length (tr_W t')\<rparr>"
  define st' where "st' = \<lparr>ls_eigen = nxt, ls_tracked = Some t',
      ls_counter = Suc (length (ls_calls st)), ls_calls = ls_calls st @ [c],
      ls_allocations = (if ls_counter st = 0 then Suc (ls_allocations st) else ls_allocations st)\<rparr>"
  have run: "process_spectrum f data errors alpha delta c_sq (int save) k sp st = Inr st'"
    using sp(1) error_array_at_cover [OF cover sp(2)]
    by (simp add: process_spectrum_def track row_at_def st'_def c_def nxt_def Let_def)
  have wf': "well_formed w nxt"
    using keep wf unfolding updater_keeps_shape_def nxt_def by blast
  have ch': "chained es0 (ls_calls st @ [c]) nxt"
    using chained_snoc [OF ch, of c] by (simp add: c_def)
  have rows': "rows_recorded t' (ls_calls st @ [c])"
    by (rule rows) (simp add: c_def)
  have new: "uc_next c = f (uc_state c) (uc_spectrum c) alpha (uc_error_array c) delta c_sq \<and>
      uc_rows c = save"
    using shape by (simp add: c_def nxt_def buffer_shape_def)
  have alloc': "ls_allocations st' = 1"
    using alloc cnt by (auto simp: st'_def split: if_splits)
  have "loop_inv f alpha delta c_sq save w es0 st'"
    unfolding loop_inv_def
    using wf' ch' rows' new old alloc' shape rest
    by (simp add: st'_def)
  moreover have "call_key c = (k, sp, data ! sp, mask_row_at errors sp)"
    by (simp add: call_key_def c_def)
  moreover have "ls_calls st' = ls_calls st @ [c]" by (simp add: st'_def)
  ultimately show ?thesis using run by blast
qed

lemma process_spectra_run:
  assumes keep: "updater_keeps_shape w f" and cover: "errors_cover errors n"
  shows "loop_inv f alpha delta c_sq save w es0 st \<Longrightarrow>
     length (ls_calls st) + length sps \<le> save \<Longrightarrow>
     \<forall>sp\<in>set sps. sp < length data \<and> sp < n \<Longrightarrow>
     \<exists>st' new. process_spectra f data errors alpha delta c_sq (int save) k sps st = Inr st' \<and>
       loop_inv f alpha delta c_sq save w es0 st' \<and>
       ls_calls st' = ls_calls st @ new \<and>
       map call_key new = map (\<lambda>sp. (k, sp, data ! sp, mask_row_at errors sp)) sps"
proof (induction sps arbitrary: st)
  case Nil
  then show ?case by simp
next
  case (Cons sp sps)
  have room: "length (ls_calls st) < save" using Cons.prems(2) by simp
  have sp: "sp < length data" "sp < n" using Cons.prems(3) by simp_all
  from process_spectrum_step [OF Cons.prems(1) keep room sp cover, of k]
  obtain st1 c where
    step: "process_spectrum f data errors alpha delta c_sq (int save) k sp st = Inr st1"
    and inv1: "loop_inv f alpha delta c_sq save w es0 st1"
    and calls1: "ls_calls st1 = ls_calls st @ [c]"
    and key1: "call_key c = (k, sp, data ! sp, mask_row_at errors sp)"
    by blast
  have room1: "length (ls_calls st1) + length sps \<le> save"
    using Cons.prems(2) calls1 by simp
  have rest: "\<forall>sp\<in>set sps. sp < length data \<and> sp < n" using Cons.prems(3) by simp
  from Cons.IH [OF inv1 room1 rest]
  obtain st' new where
    run: "process_spectra f data errors alpha delta c_sq (int save) k sps st1 = Inr st'"
    and inv': "loop_inv f alpha delta c_sq save w es0 st'"
    and calls': "ls_calls st' = ls_calls st1 @ new"
    and keys': "map call_key new = map (\<lambda>sp. (k, sp, data ! sp, mask_row_at errors sp)) sps"
    by blast
  have "process_spectra f data errors alpha delta c_sq (int save) k (sp # sps) st = Inr st'"
    using step run by simp
  moreover have "ls_calls st' = ls_calls st @ (c # new)"
    using calls1 calls' by simp
  moreover have "map call_key (c # new) =
      map (\<lambda>sp. (k, sp, data ! sp, mask_row_at errors sp)) (sp # sps)"
    using key1 keys' by simp
  ultimately show ?case using inv' by blast
qed

lemma randomise_data_order_ok:
  assumes perm: "is_permutation_of_indices (fst (sh g [0..<length data])) (length data)"
    and cover: "errors_cover errors (length data)" and pos: "0 < length data"
  shows "\<exists>d' e' g'. randomise_data_order sh data errors g = Inr (d', e', g') \<and>
     length d' = length data \<and> errors_cover e' (length data)"
proof -
  obtain p g' where sh: "sh g [0..<length data] = (p, g')" by (cases "sh g [0..<length data]")
  have dist: "distinct p" and set: "set p = {0..<length data}"
    using perm sh by (simp_all add: is_permutation_of_indices_def)
  have len: "length p = length data"
    using dist set by (metis card_atLeastLessThan diff_zero distinct_card)
  have rows: "take_rows data p = Inr (map (\<lambda>i. data ! i) p)"
    using set by (intro take_rows_ok) auto
  show ?thesis
  proof (cases errors)
    case ErrorsNone
    then show ?thesis using cover by (simp add: errors_cover_def)
  next
    case (ErrorsNoneList m)
    then have "length data \<le> m" using cover by (simp add: errors_cover_def)
    then have "m \<noteq> 0" using pos by linarith
    then show ?thesis using ErrorsNoneList cover len
      by (simp add: randomise_data_order_def sh rows errors_cover_def)
  next
    case (ErrorsArray em)
    then have em: "em \<noteq> []" "length data \<le> length em"
      using cover pos by (auto simp: errors_cover_def)
    then have "take_rows em p = Inr (map (\<lambda>i. em ! i) p)"
      using set by (intro take_rows_ok) auto
    then show ?thesis using ErrorsArray em len
      by (simp add: randomise_data_order_def sh rows errors_cover_def)
  qed
qed

lemma spectrum_of_pass_0:
  "spectrum_of_pass sh 0 data errors g sp = (data ! sp, mask_row_at errors sp)"
  by (simp add: spectrum_of_pass_def)

lemma spectrum_of_pass_Suc:
  "randomise_data_order sh data errors g = Inr (d', e', g') \<Longrightarrow>
   spectrum_of_pass sh (Suc j) data errors g sp = spectrum_of_pass sh j d' e' g' sp"
  by (simp add: spectrum_of_pass_def)

lemma run_passes_run:
  assumes keep: "updater_keeps_shape w f" and perm: "shuffle_permutes sh" and pos: "0 < N"
  shows "loop_inv f alpha delta c_sq save w es0 st \<Longrightarrow> length data = N \<Longrightarrow>
     errors_cover errors N \<Longrightarrow> length (ls_calls st) + steps_left n start N \<le> save \<Longrightarrow>
     \<exists>st' d' e' g' new.
       run_passes sh f N alpha delta c_sq (int save) n k start data errors g st =
         Inr (st', d', e', g') \<and>
       loop_inv f alpha delta c_sq save w es0 st' \<and>
       order_of_pass sh n data errors g = Inr (d', e', g') \<and>
       ls_calls st' = ls_calls st @ new \<and> length new = steps_left n start N \<and>
       map call_key new =
         concat (map (\<lambda>j. map (\<lambda>sp. (k + j, sp, spectrum_of_pass sh j data errors g sp))
                              (if j = 0 then [start..<N] else [0..<N])) [0..<n])"
proof (induction n arbitrary: k start data errors g st)
  case 0
  then show ?case by (simp add: steps_left_def)
next
  case (Suc n)
  have room: "length (ls_calls st) + length [start..<N] \<le> save"
    using Suc.prems(4) by (simp add: steps_left_def)
  have idx: "\<forall>sp\<in>set [start..<N]. sp < length data \<and> sp < N"
    using Suc.prems(2) by simp
  from process_spectra_run [OF keep Suc.prems(3) Suc.prems(1) room idx, of k]
  obtain st1 new1 where
    run1: "process_spectra f data errors alpha delta c_sq (int save) k [start..<N] st = Inr st1"
    and inv1: "loop_inv f alpha delta c_sq save w es0 st1"
    and calls1: "ls_calls st1 = ls_calls st @ new1"
    and keys1: "map call_key new1 = map (\<lambda>sp. (k, sp, data ! sp, mask_row_at errors sp)) [start..<N]"
    by blast
  have len1: "length new1 = N - start"
    using arg_cong [OF keys1, of length] by simp
  have "is_permutation_of_indices (fst (sh g [0..<length data])) (length data)"
    using perm by (simp add: shuffle_permutes_def)
  from randomise_data_order_ok [of sh g data errors, OF this] Suc.prems(2,3) pos
  obtain d1 e1 g1 where
    rand: "randomise_data_order sh data errors g = Inr (d1, e1, g1)"
    and lend: "length d1 = N" and cover1: "errors_cover e1 N"
    by auto
  have room1: "length (ls_calls st1) + steps_left n 0 N \<le> save"
    using Suc.prems(4) calls1 len1 by (cases n) (simp_all add: steps_left_def)
  from Suc.IH [OF inv1 lend cover1 room1, of "Suc k" g1]
  obtain st' d' e' g' new2 where
    run2: "run_passes sh f N alpha delta c_sq (int save) n (Suc k) 0 d1 e1 g1 st1 =
         Inr (st', d', e', g')"
    and inv': "loop_inv f alpha delta c_sq save w es0 st'"
    and ord: "order_of_pass sh n d1 e1 g1 = Inr (d', e', g')"
    and calls2: "ls_calls st' = ls_calls st1 @ new2"
    and len2: "length new2 = steps_left n 0 N"
    and keys2: "map call_key new2 =
         concat (map (\<lambda>j. map (\<lambda>sp. (Suc k + j, sp, spectrum_of_pass sh j d1 e1 g1 sp))
                              (if j = 0 then [0..<N] else [0..<N])) [0..<n])"
    by blast
  have run: "run_passes sh f N alpha delta c_sq (int save) (Suc n) k start data errors g st =
         Inr (st', d', e', g')"
    using run1 rand run2 by simp
  have ord': "order_of_pass sh (Suc n) data errors g = Inr (d', e', g')"
    using rand ord by simp
  have calls: "ls_calls st' = ls_calls st @ (new1 @ new2)"
    using calls1 calls2 by simp
  have len: "length (new1 @ new2) = steps_left (Suc n) start N"
    using len1 len2 by (cases n) (simp_all add: steps_left_def)
  have first: "map call_key new1 =
      map (\<lambda>sp. (k + 0, sp, spectrum_of_pass sh 0 data errors g sp)) [start..<N]"
    using keys1 by (simp add: spectrum_of_pass_0)
  have later: "map call_key new2 =
      concat (map (\<lambda>j. map (\<lambda>sp. (k + j, sp, spectrum_of_pass sh j data errors g sp))
                              (if j = 0 then [start..<N] else [0..<N])) (map Suc [0..<n]))"
    using keys2 by (simp add: spectrum_of_pass_Suc [OF rand] comp_def)
  have upt: "[0..<Suc n] = 0 # map Suc [0..<n]"
    by (simp add: upt_conv_Cons map_Suc_upt del: upt_Suc)
  have keys: "map call_key (new1 @ new2) =
         concat (map (\<lambda>j. map (\<lambda>sp. (k + j, sp, spectrum_of_pass sh j data errors g sp))
                              (if j = 0 then [start..<N] else [0..<N])) [0..<Suc n])"
    unfolding upt using first later by simp
  show ?case using run inv' ord' calls len keys by blast
qed

lemma steps_left_total:
  "seed \<le> N \<Longrightarrow> 0 < passes \<Longrightarrow> steps_left passes seed N = N * passes - seed"
  by (cases passes) (simp_all add: steps_left_def mult.commute)

lemma save_amount_nat:
  "seed \<le> N \<Longrightarrow> 0 < passes \<Longrightarrow>
   int N * int passes - int seed + 1 = int (N * passes - seed + 1)"
proof -
  assume a: "seed \<le> N" "0 < passes"
  have "N \<le> N * passes" using a(2) by simp
  then have "seed \<le> N * passes" using a(1) by linarith
  then show ?thesis by (simp add: of_nat_diff)
qed

lemma loop_inv_initial:
  "well_formed w es0 \<Longrightarrow>
   loop_inv f alpha delta c_sq save w es0
     \<lparr>ls_eigen = es0, ls_tracked = None, ls_counter = 0, ls_calls = [], ls_allocations = 0\<rparr>"
  by (simp add: loop_inv_def)

lemma update_loop_run:
  assumes wf: "well_formed w es0" and keep: "updater_keeps_shape w f"
    and perm: "shuffle_permutes sh" and len: "length data = N" and pos: "0 < N"
    and cover: "errors_cover errors N" and seed: "seed \<le> N" and passes: "0 < passes"
  shows "\<exists>st d' e' g'.
      update_loop sh f N passes seed alpha delta c_sq data errors g es0 = Inr (st, d', e', g') \<and>
      loop_inv f alpha delta c_sq (N * passes - seed + 1) w es0 st \<and>
      order_of_pass sh passes data errors g = Inr (d', e', g') \<and>
      length (ls_calls st) = N * passes - seed \<and>
      map call_key (ls_calls st) =
        concat (map (\<lambda>k. map (\<lambda>sp. (k, sp, spectrum_of_pass sh k data errors g sp))
                             (pass_indices seed N k)) [0..<passes])"
proof -
  let ?save = "N * passes - seed + 1"
  let ?st0 = "\<lparr>ls_eigen = es0, ls_tracked = None, ls_counter = 0, ls_calls = [],
      ls_allocations = 0\<rparr>"
  have inv0: "loop_inv f alpha delta c_sq ?save w es0 ?st0"
    using wf by (rule loop_inv_initial)
  have room: "length (ls_calls ?st0) + steps_left passes seed N \<le> ?save"
    using steps_left_total [OF seed passes] by simp
  from run_passes_run [OF keep perm pos inv0 len cover room]
  obtain st d' e' g' new where
    run: "run_passes sh f N alpha delta c_sq (int ?save) passes 0 seed data errors g ?st0 =
         Inr (st, d', e', g')"
    and inv: "loop_inv f alpha delta c_sq ?save w es0 st"
    and ord: "order_of_pass sh passes data errors g = Inr (d', e', g')"
    and calls: "ls_calls st = ls_calls ?st0 @ new"
    and lnew: "length new = steps_left passes seed N"
    and keys: "map call_key new =
         concat (map (\<lambda>j. map (\<lambda>sp. (0 + j, sp, spectrum_of_pass sh j data errors g sp))
                              (if j = 0 then [seed..<N] else [0..<N])) [0..<passes])"
    by blast
  have "update_loop sh f N passes seed alpha delta c_sq data errors g es0 = Inr (st, d', e', g')"
    using run by (simp add: update_loop_def save_amount_nat [OF seed passes])
  moreover have "length (ls_calls st) = N * passes - seed"
    using calls lnew steps_left_total [OF seed passes] by simp
  moreover have "map call_key (ls_calls st) =
        concat (map (\<lambda>k. map (\<lambda>sp. (k, sp, spectrum_of_pass sh k data errors g sp))
                             (pass_indices seed N k)) [0..<passes])"
    using calls keys by (simp add: pass_indices_def)
  ultimately show ?thesis using inv ord by blast
qed

lemma rotating_shuffle_permutes: "shuffle_permutes rotating_shuffle"
  by (simp add: shuffle_permutes_def rotating_shuffle_def is_permutation_of_indices_def)

lemma remember_spectrum_keeps_shape: "updater_keeps_shape w remember_spectrum"
  by (simp add: updater_keeps_shape_def remember_spectrum_def well_formed_def)

subsection \<open>Examples of the randomiser\<close>

lemma upt_3: "[0..<3] = [0, 1, 2]"
  by (simp add: upt_rec)

lemma rotate_example_2: "rotate 2 [0..<3] = [2, 0, 1]"
  unfolding upt_3 by (simp add: numeral_2_eq_2)

lemma rotate_example_3: "rotate 3 [0..<3] = [0, 1, 2]"
  unfolding upt_3 by (simp add: numeral_3_eq_3)

lemma rotating_shuffle_example_2: "rotating_shuffle 2 [0..<3] = ([2, 0, 1], 3)"
  unfolding rotating_shuffle_def rotate_example_2 by simp

lemma rotating_shuffle_example_3: "rotating_shuffle 3 [0..<3] = ([0, 1, 2], 4)"
  unfolding rotating_shuffle_def rotate_example_3 by simp

lemmas rotating_shuffle_examples = rotating_shuffle_example_2 rotating_shuffle_example_3

lemma length_3: "length [a, b, c] = 3"
  by simp

lemma take_rows_examples:
  "take_rows [a, b, c] [2, 0, Suc 0] = Inr [c, a, b]"
  "take_rows [a, b, c] [0, Suc 0, 2] = Inr [a, b, c]"
  by (simp_all add: take_rows_def)

lemma randomise_example_array:
  "randomise_data_order rotating_shuffle [[Fin 0], [Fin 3], [Fin 6]]
     (ErrorsArray [[Fin 1], [Fin 0], [Fin 1]]) 2 =
   Inr ([[Fin 6], [Fin 0], [Fin 3]], ErrorsArray [[Fin 1], [Fin 1], [Fin 0]], 3)"
  unfolding randomise_data_order_def Let_def length_3 rotating_shuffle_examples
  by (simp add: take_rows_examples)

lemma randomise_example_none:
  "randomise_data_order rotating_shuffle [[Fin 0], [Fin 3], [Fin 6]] ErrorsNone 2 =
   Inr ([[Fin 6], [Fin 0], [Fin 3]], ErrorsNone, 3)"
  "randomise_data_order rotating_shuffle [[Fin 0], [Fin 3], [Fin 6]] ErrorsNone 3 =
   Inr ([[Fin 0], [Fin 3], [Fin 6]], ErrorsNone, 4)"
  "randomise_data_order rotating_shuffle [[Fin 0], [Fin 3], [Fin 6]] (ErrorsNoneList 3) 2 =
   Inr ([[Fin 6], [Fin 0], [Fin 3]], ErrorsNoneList 3, 3)"
  unfolding randomise_data_order_def Let_def length_3 rotating_shuffle_examples
  by (simp_all add: take_rows_examples)

theorem randomise_data_order_pairing_witness:
  "rotating_shuffle 2 [0..<length [[Fin 0], [Fin 3], [Fin 6]]] = ([2, 0, 1], 3) \<and>
   is_permutation_of_indices [2, 0, 1] 3 \<and>
   errors_long_enough (ErrorsArray [[Fin 1], [Fin 0], [Fin 1]]) 3 \<and>
   randomise_data_order rotating_shuffle [[Fin 0], [Fin 3], [Fin 6]]
     (ErrorsArray [[Fin 1], [Fin 0], [Fin 1]]) 2 =
   Inr ([[Fin 6], [Fin 0], [Fin 3]], ErrorsArray [[Fin 1], [Fin 1], [Fin 0]], 3)"
proof -
  have sh: "rotating_shuffle 2 [0..<length [[Fin 0], [Fin 3], [Fin 6]]] = ([2, 0, 1], 3)"
    unfolding length_3 by (rule rotating_shuffle_example_2)
  have perm: "is_permutation_of_indices [2, 0, 1] 3"
    unfolding is_permutation_of_indices_def upt_3 by auto
  have long: "errors_long_enough (ErrorsArray [[Fin 1], [Fin 0], [Fin 1]]) 3"
    by (simp add: errors_long_enough_def)
  have "\<exists>data' errors'.
          randomise_data_order rotating_shuffle [[Fin 0], [Fin 3], [Fin 6]]
            (ErrorsArray [[Fin 1], [Fin 0], [Fin 1]]) 2 = Inr (data', errors', 3)"
    using randomise_data_order_pairing [of rotating_shuffle 2 "[[Fin 0], [Fin 3], [Fin 6]]"
        "[2, 0, 1]" 3 "ErrorsArray [[Fin 1], [Fin 0], [Fin 1]]", OF sh] perm long
    unfolding length_3 by blast
  then show ?thesis
    using sh perm long randomise_example_array by blast
qed

lemma errors_cover_none_list: "errors_cover (ErrorsNoneList n) n"
  by (simp add: errors_cover_def)

subsection \<open>The order of processing and the random seed\<close>

lemma bootstrap_well_formed:
  assumes "initalise_robust_pca_param svd data errors K seed bp rf rd c = Inr es"
  shows "well_formed (length (es_W es)) es"
  using assms
  by (elim initalise_robust_pca_param_Inr)
    (simp add: well_formed_def input_for_pca_def initalise_vqu_def Let_def)

lemma bootstrap_examples_return:
  "\<exists>es. initalise_robust_pca_param svd_orthogonal_columns [[Fin 6], [Fin 0], [Fin 3]] None 1 2
     (Fin (1 / 2)) cauchy_weight cauchy_weight (Fin ((787 / 1000) * (787 / 1000))) = Inr es"
  "\<exists>es. initalise_robust_pca_param svd_orthogonal_columns [[Fin 0], [Fin 3], [Fin 6]] None 1 2
     (Fin (1 / 2)) cauchy_weight cauchy_weight (Fin ((787 / 1000) * (787 / 1000))) = Inr es"
  by (simp_all add: eval_defs Let_def upt_rec)

lemma uc_spectrum_of_key:
  "map uc_spectrum cs = map (\<lambda>k. fst (snd (snd k))) (map call_key cs)"
  by (simp add: call_key_def comp_def)

lemma upt_2_3: "[2..<3] = [2]"
  by (simp add: upt_rec)

lemma upt_1: "[0..<1] = [0]"
  by simp

lemma run_robust_pca_no_mask:
  assumes "co_check_and_make_data_finite co data0 None = (data1, None)"
    and "forget_parameter (length data1) memory = Inr alpha"
    and "randomise_data_order (co_shuffle co) data1 ErrorsNone g0 = Inr (data, ErrorsNone, g1)"
    and "initalise_robust_pca_param (co_svd co) data None K seed bp (co_cauchy_like_function co)
           (co_derivate_of_cauchy_like_function co) (Fin ((787 / 1000) * (787 / 1000))) = Inr es"
    and "update_loop (co_shuffle co) (co_iterate_PCA co) (length data1) passes seed alpha bp c_sq
           data (ErrorsNoneList (length data1)) g1 es = Inr (st, d', e', g')"
  shows "processing_order
           (run_robust_pca co data0 None K seed passes None bp memory save c_sq random_seed g0) =
         Inr (map uc_spectrum (ls_calls st))"
  using assms
  by (simp add: run_robust_pca_def processing_order_def errors_arg_def errors_opt_def Let_def)

lemma example_run_order:
  assumes rand: "randomise_data_order rotating_shuffle [[Fin 0], [Fin 3], [Fin 6]] ErrorsNone g0 =
      Inr ([a, b, c], ErrorsNone, g1)"
    and boot: "\<exists>es. initalise_robust_pca_param svd_orthogonal_columns [a, b, c] None 1 2
      (Fin (1 / 2)) cauchy_weight cauchy_weight (Fin ((787 / 1000) * (787 / 1000))) = Inr es"
  shows "processing_order
           (run_robust_pca example_collaborators [[Fin 0], [Fin 3], [Fin 6]] None 1 2 1 None
              (Fin (1 / 2)) 1 False (Fin ((787 / 1000) * (787 / 1000))) random_seed g0) =
         Inr [c]"
proof -
  let ?c = "Fin ((787 / 1000) * (787 / 1000))"
  from boot obtain es where es: "initalise_robust_pca_param svd_orthogonal_columns [a, b, c] None 1 2
      (Fin (1 / 2)) cauchy_weight cauchy_weight ?c = Inr es"
    by blast
  have wf: "well_formed (length (es_W es)) es"
    using es by (rule bootstrap_well_formed)
  have seed: "(2::nat) \<le> 3" and passes: "(0::nat) < 1" and pos: "(0::nat) < 3"
    by simp_all
  from update_loop_run [OF wf remember_spectrum_keeps_shape rotating_shuffle_permutes
      length_3 pos errors_cover_none_list seed passes, of "2 / 3" "Fin (1 / 2)" ?c a b c g1]
  obtain st d' e' g' where
    run: "update_loop rotating_shuffle remember_spectrum 3 1 2 (2 / 3) (Fin (1 / 2)) ?c
        [a, b, c] (ErrorsNoneList 3) g1 es = Inr (st, d', e', g')"
    and keys: "map call_key (ls_calls st) =
        concat (map (\<lambda>k. map (\<lambda>sp. (k, sp, spectrum_of_pass rotating_shuffle k [a, b, c]
                                          (ErrorsNoneList 3) g1 sp))
                             (pass_indices 2 3 k)) [0..<1])"
    by blast
  have keys': "map call_key (ls_calls st) = [(0, 2, c, None)]"
    unfolding keys upt_1
    by (simp add: pass_indices_def upt_2_3 spectrum_of_pass_def mask_row_at_def)
  have order: "map uc_spectrum (ls_calls st) = [c]"
    unfolding uc_spectrum_of_key keys' by simp
  have fp: "forget_parameter (length [[Fin 0], [Fin 3], [Fin 6]]) 1 = Inr (2 / 3)"
    by (simp add: forget_parameter_def)
  have "processing_order
           (run_robust_pca example_collaborators [[Fin 0], [Fin 3], [Fin 6]] None 1 2 1 None
              (Fin (1 / 2)) 1 False ?c random_seed g0) =
         Inr (map uc_spectrum (ls_calls st))"
  proof (rule run_robust_pca_no_mask)
    show "co_check_and_make_data_finite example_collaborators [[Fin 0], [Fin 3], [Fin 6]] None =
        ([[Fin 0], [Fin 3], [Fin 6]], None)"
      by (simp add: example_collaborators_def)
    show "forget_parameter (length [[Fin 0], [Fin 3], [Fin 6]]) 1 = Inr (2 / 3)"
      by (rule fp)
    show "randomise_data_order (co_shuffle example_collaborators) [[Fin 0], [Fin 3], [Fin 6]]
        ErrorsNone g0 = Inr ([a, b, c], ErrorsNone, g1)"
      using rand by (simp add: example_collaborators_def)
    show "initalise_robust_pca_param (co_svd example_collaborators) [a, b, c] None 1 2
        (Fin (1 / 2)) (co_cauchy_like_function example_collaborators)
        (co_derivate_of_cauchy_like_function example_collaborators) ?c = Inr es"
      using es by (simp add: example_collaborators_def)
    show "update_loop (co_shuffle example_collaborators) (co_iterate_PCA example_collaborators)
        (length [[Fin 0], [Fin 3], [Fin 6]]) 1 2 (2 / 3) (Fin (1 / 2)) ?c [a, b, c]
        (ErrorsNoneList (length [[Fin 0], [Fin 3], [Fin 6]])) g1 es = Inr (st, d', e', g')"
      using run unfolding length_3 by (simp add: example_collaborators_def)
  qed
  then show ?thesis unfolding order .
qed

lemma run_robust_pca_ignores_random_seed:
  "run_robust_pca co data errors K seed passes fp bp memory save c_sq random_seed g =
   run_robust_pca co data errors K seed passes fp bp memory save c_sq random_seed' g"
  by (simp add: run_robust_pca_def)

text \<open>
  Claim C3. The driver never reads \<open>random_seed\<close>, and \<^verbatim>\<open>np.random.seed = 1\<close> does
  not seed the generator: a run from a given state of the generator is the same for
  every value of \<open>random_seed\<close>, and the order of processing is fixed by the state in
  which the call finds the generator. On three observations, a seed subset of two and
  one pass, two runs with the same \<open>random_seed\<close> that find the generator in
  different states pass different observations to the updater.
\<close>

theorem random_seed_does_not_fix_order:
  "run_robust_pca co data errors K seed passes fp bp memory save c_sq random_seed g =
   run_robust_pca co data errors K seed passes fp bp memory save c_sq random_seed' g \<and>
   processing_order
     (run_robust_pca example_collaborators [[Fin 0], [Fin 3], [Fin 6]] None 1 2 1 None
        (Fin (1 / 2)) 1 False (Fin ((787 / 1000) * (787 / 1000))) 1 2) = Inr [[Fin 3]] \<and>
   processing_order
     (run_robust_pca example_collaborators [[Fin 0], [Fin 3], [Fin 6]] None 1 2 1 None
        (Fin (1 / 2)) 1 False (Fin ((787 / 1000) * (787 / 1000))) 1 3) = Inr [[Fin 6]] \<and>
   processing_order
     (run_robust_pca example_collaborators [[Fin 0], [Fin 3], [Fin 6]] None 1 2 1 None
        (Fin (1 / 2)) 1 False (Fin ((787 / 1000) * (787 / 1000))) 7 2) = Inr [[Fin 3]]"
  using run_robust_pca_ignores_random_seed [of co data errors K seed passes fp bp memory save
      c_sq random_seed g random_seed']
    example_run_order [OF randomise_example_none(1) bootstrap_examples_return(1), of 1]
    example_run_order [OF randomise_example_none(2) bootstrap_examples_return(2), of 1]
    example_run_order [OF randomise_example_none(1) bootstrap_examples_return(1), of 7]
  by (intro conjI)

subsection \<open>The run of the driver\<close>


lemma randomise_data_order_first:
  assumes perm: "is_permutation_of_indices (fst (sh g [0..<length data])) (length data)"
    and long: "errors_long_enough (errors_arg errors1) (length data)"
  shows "\<exists>d' e' g'. randomise_data_order sh data (errors_arg errors1) g = Inr (d', e', g') \<and>
     length d' = length data \<and> (e' = ErrorsNone) = (errors1 = None) \<and>
     errors_cover (errors_list_for e' (length data)) (length data)"
proof -
  obtain p g' where sh: "sh g [0..<length data] = (p, g')" by (cases "sh g [0..<length data]")
  have dist: "distinct p" and set: "set p = {0..<length data}"
    using perm sh by (simp_all add: is_permutation_of_indices_def)
  have len: "length p = length data"
    using dist set by (metis card_atLeastLessThan diff_zero distinct_card)
  have rows: "take_rows data p = Inr (map (\<lambda>i. data ! i) p)"
    using set by (intro take_rows_ok) auto
  show ?thesis
  proof (cases errors1)
    case None
    then show ?thesis using len
      by (simp add: randomise_data_order_def sh rows errors_arg_def errors_list_for_def
          errors_cover_def)
  next
    case (Some em)
    then have em: "em \<noteq> []" "length data \<le> length em"
      using long by (auto simp: errors_long_enough_def errors_arg_def)
    then have "take_rows em p = Inr (map (\<lambda>i. em ! i) p)"
      using set by (intro take_rows_ok) auto
    then show ?thesis using Some em len
      by (simp add: randomise_data_order_def sh rows errors_arg_def errors_list_for_def
          errors_cover_def)
  qed
qed

lemma run_robust_pca_run:
  assumes san: "co_check_and_make_data_finite co data0 errors0 = (data1, errors1)"
    and fp: "(case fp0 of None \<Rightarrow> forget_parameter (length data1) memory | Some a \<Rightarrow> Inr a) =
      Inr alpha"
    and perm: "shuffle_permutes (co_shuffle co)"
    and keep1: "\<And>w. updater_keeps_shape w (co_iterate_PCA co)"
    and keep2: "\<And>w. updater_keeps_shape w (co_iterate_PCA_with_data_gaps co)"
    and pos: "0 < length data1"
    and mask: "errors_long_enough (errors_arg errors1) (length data1)"
    and seed: "seed \<le> length data1" and passes: "0 < passes"
  shows "\<exists>data errors g1.
      randomise_data_order (co_shuffle co) data1 (errors_arg errors1) g0 = Inr (data, errors, g1) \<and>
      (errors = ErrorsNone) = (errors1 = None) \<and>
      (case initalise_robust_pca_param (co_svd co) data (errors_opt errors) K seed bp
              (co_cauchy_like_function co) (co_derivate_of_cauchy_like_function co)
              (Fin ((787 / 1000) * (787 / 1000))) of
         Inl e \<Rightarrow>
           run_robust_pca co data0 errors0 K seed passes fp0 bp memory save c_sq random_seed g0 =
             Inl e
       | Inr es \<Rightarrow>
           (\<exists>st d' e' g'.
              run_robust_pca co data0 errors0 K seed passes fp0 bp memory save c_sq random_seed g0 =
                Inr \<lparr>rr_output = (if save then EigenTracked (ls_eigen st) (ls_tracked st)
                                   else Eigen (ls_eigen st)),
                     rr_calls = ls_calls st, rr_rng = g'\<rparr> \<and>
              loop_inv (pca_function_for co errors) alpha bp c_sq
                (length data1 * passes - seed + 1) (length (es_W es)) es st \<and>
              length (ls_calls st) = length data1 * passes - seed \<and>
              map call_key (ls_calls st) =
                concat (map (\<lambda>k. map (\<lambda>sp. (k, sp, spectrum_of_pass (co_shuffle co) k data
                                                  (errors_list_for errors (length data1)) g1 sp))
                                     (pass_indices seed (length data1) k)) [0..<passes])))"
proof -
  have "is_permutation_of_indices (fst (co_shuffle co g0 [0..<length data1])) (length data1)"
    using perm by (simp add: shuffle_permutes_def)
  from randomise_data_order_first [of "co_shuffle co" g0 data1 errors1, OF this mask]
  obtain data errors g1 where
    rand: "randomise_data_order (co_shuffle co) data1 (errors_arg errors1) g0 =
      Inr (data, errors, g1)"
    and len: "length data = length data1"
    and kind: "(errors = ErrorsNone) = (errors1 = None)"
    and cover: "errors_cover (errors_list_for errors (length data1)) (length data1)"
    by auto
  let ?boot = "initalise_robust_pca_param (co_svd co) data (errors_opt errors) K seed bp
              (co_cauchy_like_function co) (co_derivate_of_cauchy_like_function co)
              (Fin ((787 / 1000) * (787 / 1000)))"
  have branch: "case ?boot of
         Inl e \<Rightarrow>
           run_robust_pca co data0 errors0 K seed passes fp0 bp memory save c_sq random_seed g0 =
             Inl e
       | Inr es \<Rightarrow>
           (\<exists>st d' e' g'.
              run_robust_pca co data0 errors0 K seed passes fp0 bp memory save c_sq random_seed g0 =
                Inr \<lparr>rr_output = (if save then EigenTracked (ls_eigen st) (ls_tracked st)
                                   else Eigen (ls_eigen st)),
                     rr_calls = ls_calls st, rr_rng = g'\<rparr> \<and>
              loop_inv (pca_function_for co errors) alpha bp c_sq
                (length data1 * passes - seed + 1) (length (es_W es)) es st \<and>
              length (ls_calls st) = length data1 * passes - seed \<and>
              map call_key (ls_calls st) =
                concat (map (\<lambda>k. map (\<lambda>sp. (k, sp, spectrum_of_pass (co_shuffle co) k data
                                                  (errors_list_for errors (length data1)) g1 sp))
                                     (pass_indices seed (length data1) k)) [0..<passes]))"
  proof (cases ?boot)
    case (Inl e)
    have "run_robust_pca co data0 errors0 K seed passes fp0 bp memory save c_sq random_seed g0 =
        Inl e"
      using san fp rand Inl by (simp add: run_robust_pca_def Let_def)
    then show ?thesis using Inl by simp
  next
    case (Inr es)
    have wf: "well_formed (length (es_W es)) es"
      using Inr by (rule bootstrap_well_formed)
    have keep: "updater_keeps_shape (length (es_W es)) (pca_function_for co errors)"
      using keep1 keep2 by (simp add: pca_function_for_def)
    from update_loop_run [OF wf keep perm len pos cover seed passes, of alpha bp c_sq g1]
    obtain st d' e' g' where
      loop: "update_loop (co_shuffle co) (pca_function_for co errors) (length data1) passes seed
          alpha bp c_sq data (errors_list_for errors (length data1)) g1 es = Inr (st, d', e', g')"
      and inv: "loop_inv (pca_function_for co errors) alpha bp c_sq
          (length data1 * passes - seed + 1) (length (es_W es)) es st"
      and n: "length (ls_calls st) = length data1 * passes - seed"
      and keys: "map call_key (ls_calls st) =
          concat (map (\<lambda>k. map (\<lambda>sp. (k, sp, spectrum_of_pass (co_shuffle co) k data
                                            (errors_list_for errors (length data1)) g1 sp))
                               (pass_indices seed (length data1) k)) [0..<passes])"
      by blast
    have "run_robust_pca co data0 errors0 K seed passes fp0 bp memory save c_sq random_seed g0 =
        Inr \<lparr>rr_output = (if save then EigenTracked (ls_eigen st) (ls_tracked st)
                           else Eigen (ls_eigen st)),
             rr_calls = ls_calls st, rr_rng = g'\<rparr>"
      using san fp rand Inr loop
      by (simp add: run_robust_pca_def Let_def pca_function_for_def errors_list_for_def)
    then show ?thesis using Inr inv n keys by auto
  qed
  show ?thesis
    by (rule exI [of _ data], rule exI [of _ errors], rule exI [of _ g1])
      (intro conjI rand kind branch)
qed










lemma example_collaborators_fields:
  "co_check_and_make_data_finite example_collaborators data errors = (data, errors)"
  "co_svd example_collaborators = svd_orthogonal_columns"
  "co_shuffle example_collaborators = rotating_shuffle"
  "co_cauchy_like_function example_collaborators = cauchy_weight"
  "co_derivate_of_cauchy_like_function example_collaborators = cauchy_weight"
  "co_iterate_PCA example_collaborators = remember_spectrum"
  "co_iterate_PCA_with_data_gaps example_collaborators = remember_spectrum"
  by (simp_all add: example_collaborators_def)

lemma no_mask_fields:
  "errors_arg None = ErrorsNone"
  "errors_opt ErrorsNone = None"
  "errors_list_for ErrorsNone n = ErrorsNoneList n"
  "pca_function_for example_collaborators errors = remember_spectrum"
  by (simp_all add: errors_arg_def errors_opt_def errors_list_for_def pca_function_for_def
      example_collaborators_def)

lemma example_run_conditions:
  "(case None of None \<Rightarrow> forget_parameter (length [[Fin 0], [Fin 3], [Fin 6]]) 1
    | Some a \<Rightarrow> Inr a) = Inr (2 / 3)"
  "shuffle_permutes (co_shuffle example_collaborators)"
  "updater_keeps_shape w (co_iterate_PCA example_collaborators)"
  "updater_keeps_shape w (co_iterate_PCA_with_data_gaps example_collaborators)"
  "0 < length [[Fin 0], [Fin 3], [Fin 6]]"
  "errors_long_enough (errors_arg None) (length [[Fin 0], [Fin 3], [Fin 6]])"
  "2 \<le> length [[Fin 0], [Fin 3], [Fin 6]]"
  "(0::nat) < 2"
  by (simp_all add: forget_parameter_def example_collaborators_fields rotating_shuffle_permutes
      remember_spectrum_keeps_shape errors_long_enough_def errors_arg_def)








subsection \<open>The number of update steps and the tracking buffer\<close>

text \<open>
  Claim C2. The docstrings call \<^verbatim>\<open>save_amount\<close>, the number of rows of the tracking
  buffer, the total number of increments, and the claim counts
  \<open>N * passes - seed + 1\<close> update steps. Under the conditions of C4 a run that gets
  past the bootstrap makes \<open>N * passes - seed\<close> calls of the updater, one less: 4800
  and not 4801 for \<open>N = 1000\<close>, a seed size of 200 and 5 passes. The tracking buffer has
  \<open>N * passes - seed + 1\<close> rows at every call of the updater and at the end; its rows
  before the last hold the states in which the calls started, and its last row is never
  written: it still holds the zeros it was allocated with.
\<close>

theorem run_robust_pca_step_count:
  assumes "co_check_and_make_data_finite co data0 errors0 = (data1, errors1)"
    and "(case fp0 of None \<Rightarrow> forget_parameter (length data1) memory | Some a \<Rightarrow> Inr a) =
      Inr alpha"
    and "shuffle_permutes (co_shuffle co)"
    and "\<And>w. updater_keeps_shape w (co_iterate_PCA co)"
    and "\<And>w. updater_keeps_shape w (co_iterate_PCA_with_data_gaps co)"
    and "0 < length data1"
    and "errors_long_enough (errors_arg errors1) (length data1)"
    and "seed \<le> length data1" and "0 < passes"
  shows "\<exists>data errors g1.
      randomise_data_order (co_shuffle co) data1 (errors_arg errors1) g0 = Inr (data, errors, g1) \<and>
      (case initalise_robust_pca_param (co_svd co) data (errors_opt errors) K seed bp
              (co_cauchy_like_function co) (co_derivate_of_cauchy_like_function co)
              (Fin ((787 / 1000) * (787 / 1000))) of
         Inl e \<Rightarrow>
           run_robust_pca co data0 errors0 K seed passes fp0 bp memory save c_sq random_seed g0 =
             Inl e
       | Inr es \<Rightarrow>
           (\<exists>res fin tr.
              run_robust_pca co data0 errors0 K seed passes fp0 bp memory save c_sq random_seed g0 = Inr res \<and>
              rr_output res = (if save then EigenTracked fin tr else Eigen fin) \<and>
              length (rr_calls res) = length data1 * passes - seed \<and>
              list_all (\<lambda>c. uc_rows c = length data1 * passes - seed + 1) (rr_calls res) \<and>
              (seed < length data1 * passes \<longrightarrow>
                 (\<exists>t. tr = Some t \<and>
                    length (tr_W t) = length data1 * passes - seed + 1 \<and>
                    length (tr_sig2 t) = length data1 * passes - seed + 1 \<and>
                    length (tr_vqu t) = length data1 * passes - seed + 1 \<and>
                    rows_recorded t (rr_calls res) \<and>
                    tr_W t ! (length data1 * passes - seed) =
                      replicate (length (es_W es)) (Fin 0) \<and>
                    tr_sig2 t ! (length data1 * passes - seed) = Fin 0 \<and>
                    tr_vqu t ! (length data1 * passes - seed) = Fin 0))))"
proof -
  let ?run = "run_robust_pca co data0 errors0 K seed passes fp0 bp memory save c_sq random_seed g0"
  let ?n = "length data1 * passes - seed"
  from run_robust_pca_run [OF assms, where K = K and bp = bp and save = save and c_sq = c_sq
      and random_seed = random_seed and ?g0.0 = g0]
  obtain data errors g1 where
    rand: "randomise_data_order (co_shuffle co) data1 (errors_arg errors1) g0 =
      Inr (data, errors, g1)"
    and branch: "case initalise_robust_pca_param (co_svd co) data (errors_opt errors) K seed bp
              (co_cauchy_like_function co) (co_derivate_of_cauchy_like_function co)
              (Fin ((787 / 1000) * (787 / 1000))) of
         Inl e \<Rightarrow> ?run = Inl e
       | Inr es \<Rightarrow>
           (\<exists>st d' e' g'.
              ?run =
                Inr \<lparr>rr_output = (if save then EigenTracked (ls_eigen st) (ls_tracked st)
                                   else Eigen (ls_eigen st)),
                     rr_calls = ls_calls st, rr_rng = g'\<rparr> \<and>
              loop_inv (pca_function_for co errors) alpha bp c_sq
                (?n + 1) (length (es_W es)) es st \<and>
              length (ls_calls st) = ?n \<and>
              map call_key (ls_calls st) =
                concat (map (\<lambda>k. map (\<lambda>sp. (k, sp, spectrum_of_pass (co_shuffle co) k data
                                                  (errors_list_for errors (length data1)) g1 sp))
                                     (pass_indices seed (length data1) k)) [0..<passes]))"
    by blast
  let ?boot = "initalise_robust_pca_param (co_svd co) data (errors_opt errors) K seed bp
              (co_cauchy_like_function co) (co_derivate_of_cauchy_like_function co)
              (Fin ((787 / 1000) * (787 / 1000)))"
  have goal: "case ?boot of
         Inl e \<Rightarrow> ?run = Inl e
       | Inr es \<Rightarrow>
           (\<exists>res fin tr.
              ?run = Inr res \<and>
              rr_output res = (if save then EigenTracked fin tr else Eigen fin) \<and>
              length (rr_calls res) = length data1 * passes - seed \<and>
              list_all (\<lambda>c. uc_rows c = length data1 * passes - seed + 1) (rr_calls res) \<and>
              (seed < length data1 * passes \<longrightarrow>
                 (\<exists>t. tr = Some t \<and>
                    length (tr_W t) = length data1 * passes - seed + 1 \<and>
                    length (tr_sig2 t) = length data1 * passes - seed + 1 \<and>
                    length (tr_vqu t) = length data1 * passes - seed + 1 \<and>
                    rows_recorded t (rr_calls res) \<and>
                    tr_W t ! (length data1 * passes - seed) =
                      replicate (length (es_W es)) (Fin 0) \<and>
                    tr_sig2 t ! (length data1 * passes - seed) = Fin 0 \<and>
                    tr_vqu t ! (length data1 * passes - seed) = Fin 0)))"
  proof (cases ?boot)
    case (Inl e)
    then show ?thesis using branch by simp
  next
    case (Inr es)
    with branch obtain st g' where
      run: "?run = Inr \<lparr>rr_output = (if save then EigenTracked (ls_eigen st) (ls_tracked st)
                                   else Eigen (ls_eigen st)),
                     rr_calls = ls_calls st, rr_rng = g'\<rparr>"
      and inv: "loop_inv (pca_function_for co errors) alpha bp c_sq
                (?n + 1) (length (es_W es)) es st"
      and n: "length (ls_calls st) = ?n"
      by auto
    let ?res = "\<lparr>rr_output = (if save then EigenTracked (ls_eigen st) (ls_tracked st)
                                   else Eigen (ls_eigen st)),
                     rr_calls = ls_calls st, rr_rng = g'\<rparr>"
    have out: "rr_output ?res =
        (if save then EigenTracked (ls_eigen st) (ls_tracked st) else Eigen (ls_eigen st))"
      by simp
    have len: "length (rr_calls ?res) = ?n"
      using n by simp
    have rows: "list_all (\<lambda>c. uc_rows c = ?n + 1) (rr_calls ?res)"
      using inv by (simp add: loop_inv_def list_all_iff)
    have buffer: "seed < length data1 * passes \<longrightarrow>
                 (\<exists>t. ls_tracked st = Some t \<and>
                    length (tr_W t) = ?n + 1 \<and>
                    length (tr_sig2 t) = ?n + 1 \<and>
                    length (tr_vqu t) = ?n + 1 \<and>
                    rows_recorded t (rr_calls ?res) \<and>
                    tr_W t ! ?n = replicate (length (es_W es)) (Fin 0) \<and>
                    tr_sig2 t ! ?n = Fin 0 \<and>
                    tr_vqu t ! ?n = Fin 0)"
    proof
      assume "seed < length data1 * passes"
      then have "ls_calls st \<noteq> []" using n by auto
      then obtain t where t: "ls_tracked st = Some t"
        and shape: "buffer_shape (?n + 1) (length (es_W es)) t"
        and rec: "rows_recorded t (ls_calls st)"
        and rest: "rows_untouched (length (es_W es)) t (length (ls_calls st))"
        using inv by (auto simp: loop_inv_def)
      have lens: "length (tr_W t) = ?n + 1" "length (tr_sig2 t) = ?n + 1"
        "length (tr_vqu t) = ?n + 1"
        using shape by (simp_all add: buffer_shape_def)
      have last: "tr_W t ! ?n = replicate (length (es_W es)) (Fin 0)"
        "tr_sig2 t ! ?n = Fin 0" "tr_vqu t ! ?n = Fin 0"
        using rest lens n by (simp_all add: rows_untouched_def)
      show "\<exists>t. ls_tracked st = Some t \<and>
                    length (tr_W t) = ?n + 1 \<and>
                    length (tr_sig2 t) = ?n + 1 \<and>
                    length (tr_vqu t) = ?n + 1 \<and>
                    rows_recorded t (rr_calls ?res) \<and>
                    tr_W t ! ?n = replicate (length (es_W es)) (Fin 0) \<and>
                    tr_sig2 t ! ?n = Fin 0 \<and>
                    tr_vqu t ! ?n = Fin 0"
        using t lens rec last by simp
    qed
    have "(\<exists>res fin tr.
         ?run = Inr res \<and>
         rr_output res = (if save then EigenTracked fin tr else Eigen fin) \<and>
         length (rr_calls res) = length data1 * passes - seed \<and>
         list_all (\<lambda>c. uc_rows c = length data1 * passes - seed + 1) (rr_calls res) \<and>
         (seed < length data1 * passes \<longrightarrow>
            (\<exists>t. tr = Some t \<and>
               length (tr_W t) = length data1 * passes - seed + 1 \<and>
               length (tr_sig2 t) = length data1 * passes - seed + 1 \<and>
               length (tr_vqu t) = length data1 * passes - seed + 1 \<and>
               rows_recorded t (rr_calls res) \<and>
               tr_W t ! (length data1 * passes - seed) =
                 replicate (length (es_W es)) (Fin 0) \<and>
               tr_sig2 t ! (length data1 * passes - seed) = Fin 0 \<and>
               tr_vqu t ! (length data1 * passes - seed) = Fin 0)))"
      by (rule exI [of _ ?res], rule exI [of _ "ls_eigen st"], rule exI [of _ "ls_tracked st"])
        (intro conjI run out len rows buffer)
    then show ?thesis using Inr by simp
  qed
  show ?thesis
    by (rule exI [of _ data], rule exI [of _ errors], rule exI [of _ g1])
      (intro conjI rand goal)
qed

theorem run_robust_pca_step_count_witness:
  "\<exists>res fin t.
     run_robust_pca example_collaborators [[Fin 0], [Fin 3], [Fin 6]] None 1 2 2 None
        (Fin (1 / 2)) 1 True (Fin ((787 / 1000) * (787 / 1000))) 1 3 = Inr res \<and>
     rr_output res = EigenTracked fin (Some t) \<and>
     length (rr_calls res) = 4 \<and>
     list_all (\<lambda>c. uc_rows c = 5) (rr_calls res) \<and>
     length (tr_W t) = 5 \<and> tr_sig2 t ! 4 = Fin 0 \<and> tr_vqu t ! 4 = Fin 0"
proof -
  from bootstrap_examples_return(2) obtain es where
    boot: "initalise_robust_pca_param svd_orthogonal_columns [[Fin 0], [Fin 3], [Fin 6]] None 1 2
      (Fin (1 / 2)) cauchy_weight cauchy_weight (Fin ((787 / 1000) * (787 / 1000))) = Inr es"
    by blast
  have count: "3 * 2 - 2 = (4::nat)" "4 + 1 = (5::nat)" "((2::nat) < 3 * 2) = True"
    by simp_all
  from run_robust_pca_step_count [OF example_collaborators_fields(1) example_run_conditions,
      where K = 1 and bp = "Fin (1 / 2)" and save = True
        and c_sq = "Fin ((787 / 1000) * (787 / 1000))" and random_seed = 1 and ?g0.0 = 3]
  show ?thesis
  proof (elim exE conjE, goal_cases)
    case (1 data errors g1)
    have eq: "data = [[Fin 0], [Fin 3], [Fin 6]]" "errors = ErrorsNone" "g1 = 4"
      using 1(1) unfolding example_collaborators_fields no_mask_fields randomise_example_none
      by simp_all
    from 1(2) [unfolded eq example_collaborators_fields no_mask_fields length_3 boot sum.case
        if_True count simp_thms]
    obtain res fin t where
      "run_robust_pca example_collaborators [[Fin 0], [Fin 3], [Fin 6]] None 1 2 2 None
        (Fin (1 / 2)) 1 True (Fin ((787 / 1000) * (787 / 1000))) 1 3 = Inr res"
      "rr_output res = EigenTracked fin (Some t)"
      "length (rr_calls res) = 4"
      "list_all (\<lambda>c. uc_rows c = 5) (rr_calls res)"
      "length (tr_W t) = 5" "tr_sig2 t ! 4 = Fin 0" "tr_vqu t ! 4 = Fin 0"
      by (elim exE conjE, hypsubst) (rule that)
    then show ?case
      by (intro exI [of _ res] exI [of _ fin] exI [of _ t] conjI)
  qed
qed

end
